theory Spec2Isabelle
  imports Complex_Main "HOL-Library.Word"
begin

unbundle bit_operations_syntax

section \<open>Kinemetrics EVT reader (obspy/kinemetrics/evt.py)\<close>

text \<open>
  A shallow embedding of \<^verbatim>\<open>evt.py\<close>: the tag, file header, frame header and
  data block readers and the loop of \<^verbatim>\<open>EVT.readFile\<close>. Python exceptions are
  values of \<open>error\<close>; every reader takes the decoder object and the stream and
  returns them updated, together with either the exception raised or the result.
\<close>

subsection \<open>Bytes, exceptions and Python values\<close>

type_synonym byte = "8 word"
type_synonym bytes = "byte list"

datatype error =
    EVTBadHeaderError string
  | EVTBadDataError string
  | EVTEOFError
  | NotImplementedError string
  | TypeError
  | StructError
  | IndexError
  | ValueError
  | UnboundLocalError
  | ZeroDivisionError

text \<open>
  The values \<^verbatim>\<open>struct.unpack\<close> and the header transforms produce. A float is kept
  as the 32 bits unpacked (\<open>PFloat\<close>); no float arithmetic is done on header values
  before \<^verbatim>\<open>calibration\<close>.
\<close>

datatype pyval =
    PInt int
  | PBytes bytes
  | PFloat "32 word"
  | PStr string
  | PTime int int
  | PList "pyval list"
  | PNone

text \<open>Python's \<^verbatim>\<open>xs[a:b]\<close> for \<open>0 \<le> a\<close>, \<open>0 \<le> b\<close>.\<close>

definition slice :: "'a list \<Rightarrow> nat \<Rightarrow> nat \<Rightarrow> 'a list" where
  "slice xs a b = take (b - a) (drop a xs)"

subsection \<open>struct.unpack\<close>

text \<open>
  The byte order of a format string is its first character: \<^verbatim>\<open>>\<close> big-endian,
  \<^verbatim>\<open><\<close> little-endian, and native when there is no prefix. The only format
  without prefix in this file is \<^verbatim>\<open>cB\<close>, two single bytes.
\<close>

datatype byte_order = BigEndian | LittleEndian | Native

definition order_of :: "string \<Rightarrow> byte_order" where
  "order_of fmt =
     (case fmt of
        [] \<Rightarrow> Native
      | c # cs \<Rightarrow> if c = CHR ''>'' then BigEndian
                 else if c = CHR ''<'' then LittleEndian else Native)"

definition fmt_body :: "string \<Rightarrow> string" where
  "fmt_body fmt =
     (case fmt of
        [] \<Rightarrow> []
      | c # cs \<Rightarrow> if c = CHR ''>'' \<or> c = CHR ''<'' then cs else fmt)"

definition is_digit :: "char \<Rightarrow> bool" where
  "is_digit c = (c \<in> set ''0123456789'')"

definition digit_val :: "char \<Rightarrow> nat" where
  "digit_val c = of_char c - 48"

text \<open>A format is a sequence of items: an optional repeat count and a code.\<close>

fun parse_fmt :: "nat option \<Rightarrow> string \<Rightarrow> (nat \<times> char) list" where
  "parse_fmt cnt [] = []"
| "parse_fmt cnt (c # cs) =
     (if is_digit c
      then parse_fmt (Some (10 * (case cnt of None \<Rightarrow> 0 | Some n \<Rightarrow> n) + digit_val c)) cs
      else ((case cnt of None \<Rightarrow> 1 | Some n \<Rightarrow> n), c) # parse_fmt None cs)"

text \<open>Standard sizes of the codes used by the formats of this file.\<close>

definition code_size :: "char \<Rightarrow> nat option" where
  "code_size c =
     (if c \<in> set ''cbBsx'' then Some 1
      else if c \<in> set ''hH'' then Some 2
      else if c \<in> set ''iIlLf'' then Some 4
      else None)"

definition item_size :: "nat \<times> char \<Rightarrow> nat" where
  "item_size it = fst it * (case code_size (snd it) of None \<Rightarrow> 0 | Some w \<Rightarrow> w)"

definition calcsize :: "(nat \<times> char) list \<Rightarrow> nat" where
  "calcsize items = sum_list (map item_size items)"

text \<open>The unsigned value of a byte string, least significant byte first.\<close>

fun le_nat :: "bytes \<Rightarrow> nat" where
  "le_nat [] = 0"
| "le_nat (b # bs) = unat b + 256 * le_nat bs"

definition bytes_nat :: "byte_order \<Rightarrow> bytes \<Rightarrow> nat" where
  "bytes_nat e bs = (if e = BigEndian then le_nat (rev bs) else le_nat bs)"

text \<open>Two's complement reading of an unsigned value of \<open>w\<close> bits.\<close>

definition signed :: "nat \<Rightarrow> nat \<Rightarrow> int" where
  "signed w n = (if n < 2 ^ (w - 1) then int n else int n - 2 ^ w)"

definition unpack_one :: "byte_order \<Rightarrow> char \<Rightarrow> bytes \<Rightarrow> pyval" where
  "unpack_one e c bs =
     (if c = CHR ''c'' then PBytes bs
      else if c \<in> set ''bhil'' then PInt (signed (8 * length bs) (bytes_nat e bs))
      else if c = CHR ''f'' then PFloat (word_of_nat (bytes_nat e bs))
      else PInt (int (bytes_nat e bs)))"

fun unpack_items :: "byte_order \<Rightarrow> (nat \<times> char) list \<Rightarrow> bytes \<Rightarrow> pyval list" where
  "unpack_items e [] bs = []"
| "unpack_items e ((n, c) # its) bs =
     (if c = CHR ''x'' then unpack_items e its (drop n bs)
      else if c = CHR ''s'' then PBytes (take n bs) # unpack_items e its (drop n bs)
      else (let w = (case code_size c of None \<Rightarrow> 0 | Some w \<Rightarrow> w) in
              map (\<lambda>i. unpack_one e c (take w (drop (i * w) bs))) [0..<n]
              @ unpack_items e its (drop (n * w) bs)))"

text \<open>
  \<^verbatim>\<open>struct.unpack(fmt, buf)\<close>: \<^verbatim>\<open>struct.error\<close> unless the buffer has exactly the
  size the format calls for.
\<close>

definition unpack :: "string \<Rightarrow> bytes \<Rightarrow> error + pyval list" where
  "unpack fmt buf =
     (let items = parse_fmt None (fmt_body fmt) in
      if list_ex (\<lambda>it. code_size (snd it) = None) items then Inl StructError
      else if length buf \<noteq> calcsize items then Inl StructError
      else Inr (unpack_items (order_of fmt) items buf))"

subsection \<open>The stream and the decoder object\<close>

text \<open>
  The stream: the bytes not yet read and whether \<^verbatim>\<open>close()\<close> has been called.
  \<^verbatim>\<open>fp.read(n)\<close> returns at most \<open>n\<close> bytes; a negative \<open>n\<close> reads to the end.
\<close>

record stream =
  content :: bytes
  closed :: bool

definition fp_read :: "int \<Rightarrow> stream \<Rightarrow> bytes \<times> stream" where
  "fp_read n fp =
     (if n < 0 then (content fp, fp\<lparr>content := []\<rparr>)
      else (take (nat n) (content fp), fp\<lparr>content := drop (nat n) (content fp)\<rparr>))"

text \<open>
  Ghost state: \<open>unpack_log\<close> records, for every call of \<^verbatim>\<open>unpack\<close>, where it stands
  in the source and the byte order of the format string passed to it.
\<close>

datatype site = TagSync | TagBlock | FileHeader | FrameHeader | DataSample

type_synonym dico = "string \<Rightarrow> pyval option"

datatype sample = Count int | Calibrated int pyval pyval

text \<open>
  The object \<^verbatim>\<open>EVT\<close> with its four members. The three \<open>dico\<close> fields are the
  values stored at position 2 of the entries of the \<^verbatim>\<open>HEADER\<close> dictionaries of
  \<^verbatim>\<open>EVT_TAG\<close>, \<^verbatim>\<open>EVT_HEADER\<close> and \<^verbatim>\<open>EVT_FRAME_HEADER\<close>; the \<open>endian\<close> fields are
  the instance attributes \<^verbatim>\<open>self.endian\<close> of these objects.
\<close>

record evt =
  ETag_dico :: dico
  ETag_endian :: pyval
  EHeader_dico :: dico
  EHeader_endian :: pyval
  EFrame_dico :: dico
  EFrame_endian :: pyval
  EFrame_numframe :: int
  samplingrate :: int
  data :: "sample list list"
  unpack_log :: "(site \<times> byte_order) list"

definition unpack_logged :: "site \<Rightarrow> string \<Rightarrow> bytes \<Rightarrow> evt \<Rightarrow> (error + pyval list) \<times> evt" where
  "unpack_logged s fmt buf st =
     (unpack fmt buf, st\<lparr>unpack_log := unpack_log st @ [(s, order_of fmt)]\<rparr>)"

subsection \<open>EVT\_DATA.read\<close>

text \<open>
  With \<^verbatim>\<open>from __future__ import division\<close>, \<^verbatim>\<open>samplerate / 10\<close> is a float, and so is
  \<^verbatim>\<open>num\<close>. \<open>binary64\<close> rounds an exact result to the nearest double, ties to even:
  the scale \<open>k\<close> puts the mantissa in \<open>[2^52, 2^53)\<close>, and is 1074 for the subnormal
  numbers. Results of magnitude \<open>2^53\<close> and more are outside this model and are left
  as they are; the fields of a frame header give a rate below 4096, a width of at
  most 4 and at most 12 channels.
\<close>

definition round_half_even :: "rat \<Rightarrow> int" where
  "round_half_even q =
     (let n = \<lfloor>q\<rfloor>; r = q - of_int n in
      if r < 1 / 2 then n else if 1 / 2 < r then n + 1
      else if even n then n else n + 1)"

definition ulp_scale :: "rat \<Rightarrow> nat" where
  "ulp_scale x =
     (case List.find (\<lambda>k. 2 ^ 52 \<le> \<bar>x\<bar> * 2 ^ k) [0..<1074] of
        None \<Rightarrow> 1074
      | Some k \<Rightarrow> k)"

definition binary64 :: "rat \<Rightarrow> rat" where
  "binary64 x =
     (if 2 ^ 53 \<le> \<bar>x\<bar> then x
      else of_int (round_half_even (x * 2 ^ ulp_scale x)) / 2 ^ ulp_scale x)"

definition truediv :: "int \<Rightarrow> int \<Rightarrow> rat" where
  "truediv a b = binary64 (of_int a / of_int b)"

definition fmul :: "rat \<Rightarrow> int \<Rightarrow> rat" where
  "fmul a n = binary64 (a * of_int n)"

text \<open>\<^verbatim>\<open>num = (samplerate / 10) * numbyte * numchan\<close>\<close>

definition expected_length :: "int \<Rightarrow> int \<Rightarrow> int \<Rightarrow> rat" where
  "expected_length samplerate numbyte numchan =
     fmul (fmul (truediv samplerate 10) numbyte) numchan"

text \<open>\<^verbatim>\<open>unpack(...)[0] >> 8\<close> and \<^verbatim>\<open>unpack(...)[0]\<close> on the result of a one-item format.\<close>

definition first_int :: "error + pyval list \<Rightarrow> error + int" where
  "first_int r =
     (case r of
        Inl e \<Rightarrow> Inl e
      | Inr [] \<Rightarrow> Inl IndexError
      | Inr (PInt v # vs) \<Rightarrow> Inr v
      | Inr (v # vs) \<Rightarrow> Inl TypeError)"

definition shift_right8 :: "error + int \<Rightarrow> error + int" where
  "shift_right8 r = (case r of Inl e \<Rightarrow> Inl e | Inr v \<Rightarrow> Inr (v div 256))"

text \<open>
  The value of one sample of \<open>w\<close> bytes as the three branches compute it, stated
  on the bytes of the sample: zero bytes are appended up to four bytes, the four bytes
  are read as a signed big-endian integer, and for a width below four the result is
  shifted right by eight bits.
\<close>

definition sample_value :: "nat \<Rightarrow> bytes \<Rightarrow> int" where
  "sample_value w bs =
     (let v = signed 32 (bytes_nat BigEndian (bs @ replicate (4 - w) 0))
      in if w = 4 then v else v div 256)"

text \<open>The sample at the flat index \<open>i\<close> of a buffer, for samples of \<open>numbyte\<close> bytes.\<close>

definition val_at :: "bytes \<Rightarrow> int \<Rightarrow> nat \<Rightarrow> int" where
  "val_at buff numbyte i =
     sample_value (nat numbyte) (slice buff (i * nat numbyte) (i * nat numbyte + nat numbyte))"

text \<open>
  The body of the inner loop for the flat index \<open>i\<close>: the value bound to \<^verbatim>\<open>val\<close>.
  When \<^verbatim>\<open>numbyte\<close> is none of 2, 3, 4 no branch assigns \<^verbatim>\<open>val\<close>.
\<close>

definition read_val :: "bytes \<Rightarrow> int \<Rightarrow> nat \<Rightarrow> evt \<Rightarrow> (error + int) \<times> evt" where
  "read_val buff numbyte i st =
     (if numbyte = 2 then
        (case unpack_logged DataSample ''>i'' (slice buff (i * 2) (i * 2 + 2) @ [0, 0]) st of
           (r, st') \<Rightarrow> (shift_right8 (first_int r), st'))
      else if numbyte = 3 then
        (case unpack_logged DataSample ''>i'' (slice buff (i * 3) (i * 3 + 3) @ [0]) st of
           (r, st') \<Rightarrow> (shift_right8 (first_int r), st'))
      else if numbyte = 4 then
        (case unpack_logged DataSample ''>i'' (slice buff (i * 4) (i * 4 + 4)) st of
           (r, st') \<Rightarrow> (first_int r, st'))
      else (Inl UnboundLocalError, st))"

text \<open>\<^verbatim>\<open>for k in range(numchan)\<close>, over the channels still to do.\<close>

fun loop_k :: "bytes \<Rightarrow> int \<Rightarrow> nat \<Rightarrow> nat \<Rightarrow> nat list \<Rightarrow> int list list \<Rightarrow> evt
    \<Rightarrow> (error + int list list) \<times> evt" where
  "loop_k buff numbyte numchan j [] d st = (Inr d, st)"
| "loop_k buff numbyte numchan j (k # ks) d st =
     (case read_val buff numbyte (j * numchan + k) st of
        (Inl e, st') \<Rightarrow> (Inl e, st')
      | (Inr v, st') \<Rightarrow> loop_k buff numbyte numchan j ks (d[k := d ! k @ [v]]) st')"

text \<open>\<^verbatim>\<open>for j in range(samplerate // 10)\<close>, over the rows still to do.\<close>

fun loop_j :: "bytes \<Rightarrow> int \<Rightarrow> nat \<Rightarrow> nat list \<Rightarrow> int list list \<Rightarrow> evt
    \<Rightarrow> (error + int list list) \<times> evt" where
  "loop_j buff numbyte numchan [] d st = (Inr d, st)"
| "loop_j buff numbyte numchan (j # js) d st =
     (case loop_k buff numbyte numchan j [0..<numchan] d st of
        (Inl e, st') \<Rightarrow> (Inl e, st')
      | (Inr d', st') \<Rightarrow> loop_j buff numbyte numchan js d' st')"

text \<open>
  \<^verbatim>\<open>param\<close> is the tuple returned by \<^verbatim>\<open>EVT_FRAME_HEADER.read\<close>: sampling rate, sample
  size, block time, number of channels. \<^verbatim>\<open>endian\<close> is not used by the body.
\<close>

type_synonym param = "int \<times> int \<times> pyval \<times> int"

definition EVT_DATA_read :: "evt \<Rightarrow> stream \<Rightarrow> int \<Rightarrow> string \<Rightarrow> param
    \<Rightarrow> (error + int list list) \<times> evt \<times> stream" where
  "EVT_DATA_read st fp len endian param =
     (case fp_read len fp of (buff, fp') \<Rightarrow>
      (case param of (samplerate, numbyte, blocktime, numchan) \<Rightarrow>
        let num = expected_length samplerate numbyte numchan;
            d = replicate (nat numchan) []
        in if of_int len \<noteq> num then (Inl (EVTBadDataError ''Bad data length''), st, fp')
           else (case loop_j buff numbyte (nat numchan) [0..<nat (samplerate div 10)] d st of
                   (r, st') \<Rightarrow> (r, st', fp'))))"

subsection \<open>EVT.\_\_init\_\_\<close>

text \<open>
  A new \<^verbatim>\<open>EVT\<close> object in a fresh interpreter: no header value is set, no frame has
  been counted, and \<^verbatim>\<open>self.samplingrate\<close> is 0. The attributes \<^verbatim>\<open>endian\<close> of the tag
  and of the file header and \<^verbatim>\<open>self.data\<close> do not exist before the first read;
  \<^verbatim>\<open>EVT_FRAME_HEADER.__init__\<close> sets \<^verbatim>\<open>self.endian = 0\<close>.
\<close>

definition EVT_init :: evt where
  "EVT_init =
     \<lparr>ETag_dico = Map.empty, ETag_endian = PNone,
      EHeader_dico = Map.empty, EHeader_endian = PNone,
      EFrame_dico = Map.empty, EFrame_endian = PInt 0, EFrame_numframe = 0,
      samplingrate = 0, data = [], unpack_log = []\<rparr>"

subsection \<open>EVT\_Virtual: the header dictionaries\<close>

text \<open>
  An entry of a \<^verbatim>\<open>HEADER\<close> dictionary as the source writes it: the key, the place of
  the value in the unpacked list, and the name of a transform with its parameter
  (\<open>None\<close> for \<^verbatim>\<open>''\<close>). The parameter is a list of integers: empty for \<^verbatim>\<open>''\<close>, one
  number for \<^verbatim>\<open>_time\<close>, three for the arrays.
\<close>

type_synonym header_entry = "string \<times> nat \<times> (string \<times> int list) option"

text \<open>
  \<^verbatim>\<open>EVT_HEADER._gpsstatus\<close>: the labels of the bits set, in ascending order of the
  bit, each followed by a space.
\<close>

definition gpsstatus_labels :: "(int \<times> string) list" where
  "gpsstatus_labels =
     [(1, ''Checking''), (2, ''Present''), (4, ''Error''), (8, ''Failed''),
      (16, ''Not Locked''), (32, ''ON'')]"

fun gpsstatus_loop :: "int \<Rightarrow> (int \<times> string) list \<Rightarrow> string" where
  "gpsstatus_loop v [] = []"
| "gpsstatus_loop v ((key, label) # rest) =
     (if v AND key \<noteq> 0 then label @ '' '' @ gpsstatus_loop v rest
      else gpsstatus_loop v rest)"

definition gpsstatus :: "pyval \<Rightarrow> error + pyval" where
  "gpsstatus v =
     (case v of PInt n \<Rightarrow> Inr (PStr (gpsstatus_loop n gpsstatus_labels)) | _ \<Rightarrow> Inl TypeError)"

text \<open>
  Modelled from the spec: the transforms of \<^verbatim>\<open>EVT_Virtual\<close>
  (\<^verbatim>\<open>obspy/kinemetrics/evt_base.py\<close>, which is not among the sources), section 4.1.
  \<^item> \<^verbatim>\<open>_strnull\<close> (stringTrim): strip trailing null bytes, decode as text.
  \<^item> \<^verbatim>\<open>_time\<close> (timestampAssemble): combine the integer at the field's position with
    the integer at the position the parameter names into one timestamp; the parameter
    -1 means no companion field, and the value is left as it is.
  \<^item> \<^verbatim>\<open>_array\<close> (perChannelArray) with parameter \<open>[channelCount, stride, basePosition]\<close>:
    the sequence of the values at \<open>basePosition + i * stride - baseOffset\<close>.
  \<^item> \<^verbatim>\<open>_arraynull\<close> (perChannelArrayNullable): as \<^verbatim>\<open>_array\<close>, with a raw value of all
    bits set mapped to a null value. The fields that use it are signed shorts and byte
    strings, for which all bits set is -1 and a string of \<open>FF\<close> bytes.
  A position outside the unpacked values is a structural error (\<open>IndexError\<close>).
\<close>

fun strip_nulls :: "bytes \<Rightarrow> bytes" where
  "strip_nulls [] = []"
| "strip_nulls (b # bs) =
     (case strip_nulls bs of
        [] \<Rightarrow> if b = 0 then [] else [b]
      | c # cs \<Rightarrow> b # c # cs)"

definition decode_text :: "bytes \<Rightarrow> string" where
  "decode_text bs = map (\<lambda>b. char_of (unat b)) bs"

definition strnull :: "pyval \<Rightarrow> error + pyval" where
  "strnull v =
     (case v of PBytes bs \<Rightarrow> Inr (PStr (decode_text (strip_nulls bs))) | _ \<Rightarrow> Inl TypeError)"

definition value_at :: "pyval list \<Rightarrow> int \<Rightarrow> error + pyval" where
  "value_at val i = (if 0 \<le> i \<and> i < int (length val) then Inr (val ! nat i) else Inl IndexError)"

definition time_assemble :: "pyval \<Rightarrow> int list \<Rightarrow> pyval list \<Rightarrow> int \<Rightarrow> error + pyval" where
  "time_assemble v p val offset =
     (case p of
        [q] \<Rightarrow>
          if q = - 1 then Inr v
          else (case value_at val (q - offset) of
                  Inl e \<Rightarrow> Inl e
                | Inr m \<Rightarrow>
                    (case (v, m) of
                       (PInt secs, PInt ms) \<Rightarrow> Inr (PTime secs ms)
                     | _ \<Rightarrow> Inl TypeError))
      | _ \<Rightarrow> Inl TypeError)"

fun array_loop :: "pyval list \<Rightarrow> int \<Rightarrow> int \<Rightarrow> nat list \<Rightarrow> error + pyval list" where
  "array_loop val stride first [] = Inr []"
| "array_loop val stride first (i # is) =
     (case value_at val (first + int i * stride) of
        Inl e \<Rightarrow> Inl e
      | Inr v \<Rightarrow>
          (case array_loop val stride first is of
             Inl e \<Rightarrow> Inl e
           | Inr vs \<Rightarrow> Inr (v # vs)))"

definition array_values :: "int list \<Rightarrow> pyval list \<Rightarrow> int \<Rightarrow> error + pyval list" where
  "array_values p val offset =
     (case p of
        [n, stride, base] \<Rightarrow> array_loop val stride (base - offset) [0..<nat n]
      | _ \<Rightarrow> Inl TypeError)"

definition all_bits_set :: "pyval \<Rightarrow> bool" where
  "all_bits_set v =
     (case v of
        PInt n \<Rightarrow> n = - 1
      | PBytes bs \<Rightarrow> bs \<noteq> [] \<and> list_all (\<lambda>b. b = 255) bs
      | _ \<Rightarrow> False)"

definition array_transform :: "int list \<Rightarrow> pyval list \<Rightarrow> int \<Rightarrow> error + pyval" where
  "array_transform p val offset =
     (case array_values p val offset of Inl e \<Rightarrow> Inl e | Inr vs \<Rightarrow> Inr (PList vs))"

definition arraynull_transform :: "int list \<Rightarrow> pyval list \<Rightarrow> int \<Rightarrow> error + pyval" where
  "arraynull_transform p val offset =
     (case array_values p val offset of
        Inl e \<Rightarrow> Inl e
      | Inr vs \<Rightarrow> Inr (PList (map (\<lambda>v. if all_bits_set v then PNone else v) vs)))"

text \<open>
  The call \<^verbatim>\<open>getattr(self, fct)(val[index], param, val, offset)\<close>. The transform
  \<^verbatim>\<open>_instrument\<close> is in \<^verbatim>\<open>evt_base.py\<close> and the spec does not describe it: it is the
  parameter \<open>instrument\<close>, a function of the instrument code that may raise.
\<close>

type_synonym instrument_fn = "int \<Rightarrow> error + pyval"

definition apply_transform :: "instrument_fn \<Rightarrow> (string \<times> int list) option \<Rightarrow> pyval
    \<Rightarrow> pyval list \<Rightarrow> int \<Rightarrow> error + pyval" where
  "apply_transform instrument tr v val offset =
     (case tr of
        None \<Rightarrow> Inr v
      | Some (fct, p) \<Rightarrow>
          if fct = ''_instrument'' then
            (case v of PInt code \<Rightarrow> instrument code | _ \<Rightarrow> Inl TypeError)
          else if fct = ''_gpsstatus'' then gpsstatus v
          else if fct = ''_time'' then time_assemble v p val offset
          else if fct = ''_strnull'' then strnull v
          else if fct = ''_array'' then array_transform p val offset
          else if fct = ''_arraynull'' then arraynull_transform p val offset
          else Inl TypeError)"

text \<open>
  Modelled from the spec: \<^verbatim>\<open>EVT_Virtual.setdico(val, offset)\<close> (section 4.1,
  SchemaDecoder). For each entry the raw value is \<open>val[index - offset]\<close>; an entry whose
  index falls outside the values keeps its prior value. The entries are visited in the
  order the source lists them; an exception of a transform leaves the entries already
  visited updated.
\<close>

fun setdico :: "instrument_fn \<Rightarrow> header_entry list \<Rightarrow> pyval list \<Rightarrow> int \<Rightarrow> dico
    \<Rightarrow> (error + unit) \<times> dico" where
  "setdico instrument [] val offset d = (Inr (), d)"
| "setdico instrument ((key, idx, tr) # entries) val offset d =
     (if 0 \<le> int idx - offset \<and> int idx - offset < int (length val) then
        (case apply_transform instrument tr (val ! nat (int idx - offset)) val offset of
           Inl e \<Rightarrow> (Inl e, d)
         | Inr v \<Rightarrow> setdico instrument entries val offset (d(key \<mapsto> v)))
      else setdico instrument entries val offset d)"

text \<open>
  Modelled from the spec: \<^verbatim>\<open>EVT_Virtual.unsetdico()\<close>, the "unset previous dictionary
  before reading" of section 9: every entry loses its value.
\<close>

definition unsetdico :: "header_entry list \<Rightarrow> dico \<Rightarrow> dico" where
  "unsetdico entries d = (\<lambda>k. if k \<in> set (map fst entries) then None else d k)"

text \<open>
  Modelled from the spec: reading a field of a decoded record (\<^verbatim>\<open>self.length\<close>,
  \<^verbatim>\<open>self.streampar\<close>, ...), which \<^verbatim>\<open>EVT_Virtual\<close> resolves in the \<^verbatim>\<open>HEADER\<close>
  dictionary. A field that has no value is a structural error.
\<close>

definition getattr :: "dico \<Rightarrow> string \<Rightarrow> error + pyval" where
  "getattr d k = (case d k of None \<Rightarrow> Inl IndexError | Some v \<Rightarrow> Inr v)"

definition getint :: "dico \<Rightarrow> string \<Rightarrow> error + int" where
  "getint d k =
     (case d k of
        None \<Rightarrow> Inl IndexError
      | Some (PInt n) \<Rightarrow> Inr n
      | Some v \<Rightarrow> Inl TypeError)"

subsection \<open>EVT\_TAG\<close>

definition EVT_TAG_HEADER :: "header_entry list" where
  "EVT_TAG_HEADER =
     [(''order'', 1, None),
      (''version'', 2, None),
      (''instrument'', 3, Some (''_instrument'', [])),
      (''type'', 4, None),
      (''length'', 5, None),
      (''datalength'', 6, None),
      (''id'', 7, None),
      (''checksum'', 8, None),
      (''endian'', 9, None)]"

text \<open>
  \<^verbatim>\<open>EVT_TAG.verify\<close>. A field that is not an integer is in neither list of numbers.
\<close>

definition EVT_TAG_verify :: "dico \<Rightarrow> error + bool" where
  "EVT_TAG_verify d =
     (case getattr d ''type'' of
        Inl e \<Rightarrow> Inl e
      | Inr t \<Rightarrow>
          if t \<noteq> PInt 1 \<and> t \<noteq> PInt 2 then Inr False
          else if t = PInt 1 then
            (case getattr d ''length'' of
               Inl e \<Rightarrow> Inl e
             | Inr l \<Rightarrow> if l \<noteq> PInt 2040 \<and> l \<noteq> PInt 2736 then Inr False else Inr True)
          else Inr True)"

text \<open>
  \<^verbatim>\<open>EVT_TAG.read\<close>, from the unpacking of the whole tag on: \<^verbatim>\<open>endian\<close> is the byte order
  this tag's second byte selects.
\<close>

definition EVT_TAG_unpack :: "instrument_fn \<Rightarrow> string \<Rightarrow> bytes \<Rightarrow> evt \<Rightarrow> stream
    \<Rightarrow> (error + unit) \<times> evt \<times> stream" where
  "EVT_TAG_unpack instrument endian mystr st fp =
     (case unpack_logged TagBlock (endian @ ''cBBBLHHHH'') mystr st of
        (Inl e, st1) \<Rightarrow> (Inl e, st1, fp)
      | (Inr val, st1) \<Rightarrow>
          (case setdico instrument EVT_TAG_HEADER val 0 (ETag_dico st1) of
             (Inl e, d) \<Rightarrow> (Inl e, st1\<lparr>ETag_dico := d\<rparr>, fp)
           | (Inr u, d) \<Rightarrow>
               let st2 = st1\<lparr>ETag_dico := d, ETag_endian := PStr endian\<rparr> in
               (case EVT_TAG_verify d of
                  Inl e \<Rightarrow> (Inl e, st2, fp)
                | Inr ok \<Rightarrow>
                    if \<not> ok then (Inl (EVTBadHeaderError ''Bad Tag values''), st2, fp)
                    else (Inr (), st2, fp))))"

definition EVT_TAG_read :: "instrument_fn \<Rightarrow> evt \<Rightarrow> stream \<Rightarrow> (error + unit) \<times> evt \<times> stream" where
  "EVT_TAG_read instrument st fp =
     (case fp_read 16 fp of (mystr, fp1) \<Rightarrow>
        if length mystr < 16 then (Inl EVTEOFError, st, fp1)
        else
          (case unpack_logged TagSync ''cB'' (slice mystr 0 2) st of
             (Inl e, st1) \<Rightarrow> (Inl e, st1, fp1)
           | (Inr [sync, byteOrder], st1) \<Rightarrow>
               if sync = PBytes [0] then (Inl EVTEOFError, st1, fp1)
               else if sync \<noteq> PBytes [75] then (Inl (EVTBadHeaderError ''Sync error''), st1, fp1)
               else if byteOrder = PInt 1 then EVT_TAG_unpack instrument ''>'' mystr st1 fp1
               else if byteOrder = PInt 0 then EVT_TAG_unpack instrument ''<'' mystr st1 fp1
               else (Inl (EVTBadHeaderError ''''), st1, fp1)
           | (Inr vs, st1) \<Rightarrow> (Inl ValueError, st1, fp1)))"

subsection \<open>EVT\_HEADER\<close>

definition HEADER_STRUCT1 :: string where
  "HEADER_STRUCT1 = ''3sB2H3B3x6Hh2Hh22x3B5x2H4hH2x2h6L16x''"

definition HEADER_STRUCT2 :: string where
  "HEADER_STRUCT2 = concat (replicate 12 ''lLlL2l12x'')"

definition HEADER_STRUCT3 :: string where
  "HEADER_STRUCT3 = ''3L4H2L4x2H5s33sh2f4h4B2LB17s2B2B6xh22x''"

definition HEADER_STRUCT4 :: string where
  "HEADER_STRUCT4 = concat (replicate 12 ''5sbH5h3H4BHBx8f2B10x'')"

definition EVT_HEADER_HEADER :: "header_entry list" where
  "EVT_HEADER_HEADER =
     [(''instrument'', 1, Some (''_instrument'', [])),
      (''a2dbits'', 4, None),
      (''samplebytes'', 5, None),
      (''installedchan'', 7, None),
      (''maxchannels'', 8, None),
      (''batteryvoltage'', 13, None),
      (''temperature'', 16, None),
      (''gpsstatus'', 18, Some (''_gpsstatus'', [])),
      (''gpslastlock'', 33, Some (''_time'', [- 1])),
      (''starttime'', 107, Some (''_time'', [112])),
      (''triggertime'', 108, Some (''_time'', [113])),
      (''duration'', 109, None),
      (''nscans'', 115, None),
      (''serialnumber'', 116, None),
      (''nchannels'', 117, None),
      (''stnid'', 118, Some (''_strnull'', [])),
      (''comment'', 119, Some (''_strnull'', [])),
      (''elevation'', 120, None),
      (''latitude'', 121, None),
      (''longitude'', 122, None),
      (''chan_id'', 140, Some (''_arraynull'', [12, 27, 140])),
      (''chan_north'', 143, Some (''_arraynull'', [12, 27, 143])),
      (''chan_east'', 144, Some (''_arraynull'', [12, 27, 144])),
      (''chan_up'', 145, Some (''_arraynull'', [12, 27, 145])),
      (''chan_azimuth'', 147, Some (''_arraynull'', [12, 27, 147])),
      (''chan_gain'', 150, Some (''_array'', [12, 27, 150])),
      (''chan_fullscale'', 157, Some (''_array'', [12, 27, 157])),
      (''chan_sensitivity'', 158, Some (''_array'', [12, 27, 158])),
      (''chan_damping'', 159, Some (''_array'', [12, 27, 159])),
      (''chan_natfreq'', 160, Some (''_array'', [12, 27, 160])),
      (''chan_calcoil'', 164, Some (''_array'', [12, 27, 164])),
      (''chan_range'', 165, Some (''_array'', [12, 27, 165])),
      (''chan_sensorgain'', 166, Some (''_array'', [12, 27, 166]))]"

text \<open>
  One step of \<^verbatim>\<open>analyse_header12\<close>: \<^verbatim>\<open>val = unpack(self.endian + fmt, head_buff[a:b])\<close>
  and \<^verbatim>\<open>self.setdico(list(val), offset)\<close>.
\<close>

definition header_part :: "instrument_fn \<Rightarrow> string \<Rightarrow> string \<Rightarrow> bytes \<Rightarrow> int \<Rightarrow> evt
    \<Rightarrow> (error + unit) \<times> evt" where
  "header_part instrument endian fmt part offset st =
     (case unpack_logged FileHeader (endian @ fmt) part st of
        (Inl e, st1) \<Rightarrow> (Inl e, st1)
      | (Inr val, st1) \<Rightarrow>
          (case setdico instrument EVT_HEADER_HEADER val offset (EHeader_dico st1) of
             (r, d) \<Rightarrow> (r, st1\<lparr>EHeader_dico := d\<rparr>)))"

text \<open>The byte ranges are \<open>0x7c = 124\<close>, \<open>0x22c = 556\<close>, \<open>0x2c8 = 712\<close>, \<open>0x658 = 1624\<close>.\<close>

definition analyse_header12 :: "instrument_fn \<Rightarrow> string \<Rightarrow> bytes \<Rightarrow> evt \<Rightarrow> (error + unit) \<times> evt" where
  "analyse_header12 instrument endian head_buff st =
     (case header_part instrument endian HEADER_STRUCT1 (slice head_buff 0 124) 0 st of
        (Inl e, st1) \<Rightarrow> (Inl e, st1)
      | (Inr u1, st1) \<Rightarrow>
     (case header_part instrument endian HEADER_STRUCT2 (slice head_buff 124 556) 35 st1 of
        (Inl e, st2) \<Rightarrow> (Inl e, st2)
      | (Inr u2, st2) \<Rightarrow>
     (case header_part instrument endian HEADER_STRUCT3 (slice head_buff 556 712) 107 st2 of
        (Inl e, st3) \<Rightarrow> (Inl e, st3)
      | (Inr u3, st3) \<Rightarrow>
          header_part instrument endian HEADER_STRUCT4 (slice head_buff 712 1624) 140 st3)))"

text \<open>
  \<^verbatim>\<open>EVT_HEADER.read\<close>. \<^verbatim>\<open>self.endian = endian.encode()\<close> keeps the one character of
  \<^verbatim>\<open>endian\<close>. In the last branch the argument of the exception,
  \<^verbatim>\<open>"Bad Header length " + length\<close>, adds an integer to a string: Python raises
  \<^verbatim>\<open>TypeError\<close> while it evaluates it, and no \<^verbatim>\<open>EVTBadHeaderError\<close> is made.
\<close>

definition EVT_HEADER_read :: "instrument_fn \<Rightarrow> evt \<Rightarrow> stream \<Rightarrow> int \<Rightarrow> string
    \<Rightarrow> (error + unit) \<times> evt \<times> stream" where
  "EVT_HEADER_read instrument st fp len endian =
     (case fp_read len fp of (buff, fp1) \<Rightarrow>
        let st1 = st\<lparr>EHeader_endian := PStr endian\<rparr> in
        if len = 2040 then
          (case analyse_header12 instrument endian buff st1 of (r, st2) \<Rightarrow> (r, st2, fp1))
        else if len = 2736 then
          (Inl (NotImplementedError ''16 Channel not implemented''), st1, fp1)
        else (Inl TypeError, st1, fp1))"

text \<open>
  \<^verbatim>\<open>makeobspydico(numchan)\<close>: every key with its value, or with the element
  \<^verbatim>\<open>numchan\<close> of its value when that is a list.
\<close>

fun makeobspydico_loop :: "dico \<Rightarrow> nat \<Rightarrow> header_entry list \<Rightarrow> error + (string \<times> pyval) list" where
  "makeobspydico_loop d numchan [] = Inr []"
| "makeobspydico_loop d numchan ((key, idx, tr) # entries) =
     (case getattr d key of
        Inl e \<Rightarrow> Inl e
      | Inr v \<Rightarrow>
          (case (case v of
                   PList vs \<Rightarrow> if numchan < length vs then Inr (vs ! numchan) else Inl IndexError
                 | _ \<Rightarrow> Inr v) of
             Inl e \<Rightarrow> Inl e
           | Inr x \<Rightarrow>
               (case makeobspydico_loop d numchan entries of
                  Inl e \<Rightarrow> Inl e
                | Inr rest \<Rightarrow> Inr ((key, x) # rest))))"

definition makeobspydico :: "dico \<Rightarrow> nat \<Rightarrow> error + (string \<times> pyval) list" where
  "makeobspydico d numchan = makeobspydico_loop d numchan EVT_HEADER_HEADER"

subsection \<open>EVT\_FRAME\_HEADER\<close>

definition FRAME_STRUCT :: string where
  "FRAME_STRUCT = ''BBHHLHHBBHB13s''"

definition EVT_FRAME_HEADER_HEADER :: "header_entry list" where
  "EVT_FRAME_HEADER_HEADER =
     [(''frametype'', 0, None),
      (''instrumentcode'', 1, Some (''_instrument'', [])),
      (''recorderid'', 2, None),
      (''framesize'', 3, None),
      (''blocktime'', 4, Some (''_time'', [9])),
      (''channelbitmap'', 5, None),
      (''streampar'', 6, None),
      (''framestatus'', 7, None),
      (''framestatus2'', 8, None),
      (''msec'', 9, None),
      (''channelbitmap1'', 10, None),
      (''timecode'', 11, None)]"

definition EVT_FRAME_HEADER_verify :: "dico \<Rightarrow> error + bool" where
  "EVT_FRAME_HEADER_verify d =
     (case getattr d ''frametype'' of
        Inl e \<Rightarrow> Inl e
      | Inr t \<Rightarrow> if t \<noteq> PInt 3 \<and> t \<noteq> PInt 4 \<and> t \<noteq> PInt 5 then Inr False else Inr True)"

text \<open>\<^verbatim>\<open>analyse_frame32\<close>: the frame is counted before it is unpacked.\<close>

definition analyse_frame32 :: "instrument_fn \<Rightarrow> string \<Rightarrow> bytes \<Rightarrow> evt \<Rightarrow> (error + unit) \<times> evt" where
  "analyse_frame32 instrument endian head_buff st =
     (let st0 = st\<lparr>EFrame_numframe := EFrame_numframe st + 1\<rparr> in
      case unpack_logged FrameHeader (endian @ FRAME_STRUCT) head_buff st0 of
        (Inl e, st1) \<Rightarrow> (Inl e, st1)
      | (Inr val, st1) \<Rightarrow>
          (case setdico instrument EVT_FRAME_HEADER_HEADER val 0 (EFrame_dico st1) of
             (Inl e, d) \<Rightarrow> (Inl e, st1\<lparr>EFrame_dico := d\<rparr>)
           | (Inr u, d) \<Rightarrow>
               (case EVT_FRAME_HEADER_verify d of
                  Inl e \<Rightarrow> (Inl e, st1\<lparr>EFrame_dico := d\<rparr>)
                | Inr ok \<Rightarrow>
                    if \<not> ok then (Inl (EVTBadHeaderError ''Bad Frame values''), st1\<lparr>EFrame_dico := d\<rparr>)
                    else (Inr (), st1\<lparr>EFrame_dico := d\<rparr>))))"

text \<open>\<^verbatim>\<open>channels()\<close>: the number of bits set among the low 12 of the channel bitmap.\<close>

definition channels :: "dico \<Rightarrow> error + int" where
  "channels d =
     (case getattr d ''frametype'' of
        Inl e \<Rightarrow> Inl e
      | Inr t \<Rightarrow>
          if t = PInt 4 then Inl (NotImplementedError ''16 Channels not implemented'')
          else (case getint d ''channelbitmap'' of
                  Inl e \<Rightarrow> Inl e
                | Inr bitmap \<Rightarrow>
                    Inr (int (length (filter (\<lambda>i. bitmap AND 2 ^ i \<noteq> 0) [0..<12])))))"

text \<open>
  The values returned: \<^verbatim>\<open>samplingrate = self.streampar & 4095\<close>,
  \<^verbatim>\<open>samplesize = (self.framestatus >> 6) + 1\<close>, replaced by 3 when it is not in
  \<^verbatim>\<open>[2, 3, 4]\<close>, then \<^verbatim>\<open>self.blocktime\<close> and \<^verbatim>\<open>self.channels()\<close>.
\<close>

definition frame_param :: "dico \<Rightarrow> error + param" where
  "frame_param d =
     (case getint d ''streampar'' of
        Inl e \<Rightarrow> Inl e
      | Inr streampar \<Rightarrow>
     (case getint d ''framestatus'' of
        Inl e \<Rightarrow> Inl e
      | Inr framestatus \<Rightarrow>
          let samplingrate = streampar AND 4095;
              samplesize = framestatus div 64 + 1;
              samplesize = (if samplesize \<noteq> 2 \<and> samplesize \<noteq> 3 \<and> samplesize \<noteq> 4 then 3
                            else samplesize)
          in (case getattr d ''blocktime'' of
                Inl e \<Rightarrow> Inl e
              | Inr blocktime \<Rightarrow>
                  (case channels d of
                     Inl e \<Rightarrow> Inl e
                   | Inr chan \<Rightarrow> Inr (samplingrate, samplesize, blocktime, chan)))))"

text \<open>
  \<^verbatim>\<open>EVT_FRAME_HEADER.read\<close>. As in \<^verbatim>\<open>EVT_HEADER.read\<close>, the \<^verbatim>\<open>else\<close> branch raises
  \<^verbatim>\<open>TypeError\<close> from \<^verbatim>\<open>"Bad Header length " + length\<close>.
\<close>

definition EVT_FRAME_HEADER_read :: "instrument_fn \<Rightarrow> evt \<Rightarrow> stream \<Rightarrow> int \<Rightarrow> string
    \<Rightarrow> (error + param) \<times> evt \<times> stream" where
  "EVT_FRAME_HEADER_read instrument st fp len endian =
     (case fp_read len fp of (buff, fp1) \<Rightarrow>
        let st1 = st\<lparr>EFrame_endian := PStr endian\<rparr> in
        if len = 32 then
          (case analyse_frame32 instrument endian buff st1 of
             (Inl e, st2) \<Rightarrow> (Inl e, st2, fp1)
           | (Inr u, st2) \<Rightarrow> (frame_param (EFrame_dico st2), st2, fp1))
        else (Inl TypeError, st1, fp1))"

subsection \<open>EVT.readFile\<close>

text \<open>
  The argument of \<^verbatim>\<open>readFile\<close>: the name of a file, given here by the bytes of the
  file, which \<^verbatim>\<open>readFile\<close> opens itself, or a file-like object of the caller.
\<close>

datatype source = Filename bytes | FileObject stream

text \<open>
  \<^verbatim>\<open>self.data = np.hstack((self.data, npdata))\<close>: \<^verbatim>\<open>self.data\<close> has one row per
  channel of the file header. \<^verbatim>\<open>np.array(datal)\<close> has one row per active channel of the
  frame, and is one-dimensional when there is none; \<^verbatim>\<open>hstack\<close> raises \<^verbatim>\<open>ValueError\<close>
  unless both have two dimensions and as many rows. The values become floats of the
  same value (\<open>Count\<close>).
\<close>

definition hstack :: "sample list list \<Rightarrow> int list list \<Rightarrow> error + sample list list" where
  "hstack d datal =
     (if datal \<noteq> [] \<and> length datal = length d
      then Inr (map (\<lambda>(row, new). row @ map Count new) (zip d datal))
      else Inl ValueError)"

text \<open>The statements of the loop body after the sampling rate check.\<close>

definition readFile_data :: "string \<Rightarrow> param \<Rightarrow> evt \<Rightarrow> stream \<Rightarrow> (error + unit) \<times> evt \<times> stream" where
  "readFile_data endian retparam st fp =
     (case getint (ETag_dico st) ''datalength'' of
        Inl e \<Rightarrow> (Inl e, st, fp)
      | Inr datalength \<Rightarrow>
          (case EVT_DATA_read st fp datalength endian retparam of
             (Inl e, st1, fp1) \<Rightarrow> (Inl e, st1, fp1)
           | (Inr datal, st1, fp1) \<Rightarrow>
               (case hstack (data st1) datal of
                  Inl e \<Rightarrow> (Inl e, st1, fp1)
                | Inr d \<Rightarrow> (Inr (), st1\<lparr>data := d\<rparr>, fp1))))"

text \<open>
  The first two statements of the body of \<^verbatim>\<open>try\<close>: the tag of the frame, then the
  frame header, of the length the tag gives.
\<close>

definition readFile_frame :: "instrument_fn \<Rightarrow> string \<Rightarrow> evt \<Rightarrow> stream
    \<Rightarrow> (error + param) \<times> evt \<times> stream" where
  "readFile_frame instrument endian st fp =
     (case EVT_TAG_read instrument st fp of
        (Inl e, st1, fp1) \<Rightarrow> (Inl e, st1, fp1)
      | (Inr u, st1, fp1) \<Rightarrow>
     (case getint (ETag_dico st1) ''length'' of
        Inl e \<Rightarrow> (Inl e, st1, fp1)
      | Inr len \<Rightarrow> EVT_FRAME_HEADER_read instrument st1 fp1 len endian))"

text \<open>The body of \<^verbatim>\<open>try\<close> in the loop of \<^verbatim>\<open>readFile\<close>.\<close>

definition readFile_body :: "instrument_fn \<Rightarrow> string \<Rightarrow> evt \<Rightarrow> stream
    \<Rightarrow> (error + unit) \<times> evt \<times> stream" where
  "readFile_body instrument endian st fp =
     (case readFile_frame instrument endian st fp of
        (Inl e, st2, fp2) \<Rightarrow> (Inl e, st2, fp2)
      | (Inr retparam, st2, fp2) \<Rightarrow>
          if samplingrate st2 = 0 then
            readFile_data endian retparam (st2\<lparr>samplingrate := fst retparam\<rparr>) fp2
          else if samplingrate st2 \<noteq> fst retparam then
            (Inl (EVTBadHeaderError ''Sampling rate not constant''), st2, fp2)
          else readFile_data endian retparam st2 fp2)"

text \<open>
  The loop \<^verbatim>\<open>while True\<close>: \<^verbatim>\<open>EVTEOFError\<close> leaves it, every other exception leaves
  \<^verbatim>\<open>readFile\<close>. Every turn that does not raise has read the 16 bytes of a tag, which
  is why the loop ends.
\<close>

lemma fp_read_shorter: "length (content (snd (fp_read n fp))) \<le> length (content fp)"
  by (simp add: fp_read_def)

lemma EVT_TAG_unpack_stream: "snd (snd (EVT_TAG_unpack instrument endian mystr st fp)) = fp"
  by (simp add: EVT_TAG_unpack_def Let_def split: prod.splits sum.splits)

lemma EVT_TAG_read_stream:
  "snd (snd (EVT_TAG_read instrument st fp)) = snd (fp_read 16 fp)"
  by (simp add: EVT_TAG_read_def EVT_TAG_unpack_stream split: prod.splits sum.splits list.splits)

lemma EVT_TAG_read_Inr_length:
  "EVT_TAG_read instrument st fp = (Inr u, st', fp') \<Longrightarrow> 16 \<le> length (content fp)"
  by (auto simp: EVT_TAG_read_def fp_read_def split: prod.splits if_splits)

lemma EVT_FRAME_HEADER_read_stream:
  "snd (snd (EVT_FRAME_HEADER_read instrument st fp len endian)) = snd (fp_read len fp)"
  by (simp add: EVT_FRAME_HEADER_read_def Let_def split: prod.splits sum.splits)

lemma EVT_DATA_read_stream:
  "snd (snd (EVT_DATA_read st fp len endian param)) = snd (fp_read len fp)"
  by (simp add: EVT_DATA_read_def Let_def split: prod.splits sum.splits)

lemma readFile_data_shorter:
  "length (content (snd (snd (readFile_data endian retparam st fp)))) \<le> length (content fp)"
proof (cases "getint (ETag_dico st) ''datalength''")
  case (Inl e)
  then show ?thesis by (simp add: readFile_data_def)
next
  case (Inr dl)
  obtain r st1 fp1 where e: "EVT_DATA_read st fp dl endian retparam = (r, st1, fp1)"
    by (cases "EVT_DATA_read st fp dl endian retparam") auto
  then have "fp1 = snd (fp_read dl fp)"
    using EVT_DATA_read_stream [of st fp dl endian retparam] by simp
  then have "length (content fp1) \<le> length (content fp)"
    by (simp add: fp_read_shorter)
  then show ?thesis
    by (simp add: readFile_data_def Inr e split: sum.splits)
qed

lemma readFile_body_shorter:
  assumes "readFile_body instrument endian st fp = (Inr u, st', fp')"
  shows "length (content fp') < length (content fp)"
proof -
  obtain r1 st1 fp1 where t: "EVT_TAG_read instrument st fp = (r1, st1, fp1)"
    by (cases "EVT_TAG_read instrument st fp") auto
  from assms t obtain u1 where r1: "r1 = Inr u1"
    by (cases r1) (auto simp: readFile_body_def readFile_frame_def)
  have fp1: "fp1 = snd (fp_read 16 fp)"
    using EVT_TAG_read_stream [of instrument st fp] t by simp
  have "16 \<le> length (content fp)"
    using t r1 by (auto dest: EVT_TAG_read_Inr_length)
  then have l1: "length (content fp1) < length (content fp)"
    by (simp add: fp1 fp_read_def)
  from assms t r1 obtain len where len: "getint (ETag_dico st1) ''length'' = Inr len"
    by (cases "getint (ETag_dico st1) ''length''") (auto simp: readFile_body_def readFile_frame_def)
  obtain r2 st2 fp2 where f: "EVT_FRAME_HEADER_read instrument st1 fp1 len endian = (r2, st2, fp2)"
    by (cases "EVT_FRAME_HEADER_read instrument st1 fp1 len endian") auto
  from assms t r1 len f obtain retparam where r2: "r2 = Inr retparam"
    by (cases r2) (auto simp: readFile_body_def readFile_frame_def)
  have "fp2 = snd (fp_read len fp1)"
    using EVT_FRAME_HEADER_read_stream [of instrument st1 fp1 len endian] f by simp
  then have l2: "length (content fp2) \<le> length (content fp1)"
    by (simp add: fp_read_shorter)
  have "\<exists>st3. readFile_data endian retparam st3 fp2 = (Inr u, st', fp')"
    using assms t r1 len f r2 by (auto simp: readFile_body_def readFile_frame_def split: if_splits)
  then obtain st3 where d: "readFile_data endian retparam st3 fp2 = (Inr u, st', fp')"
    by blast
  have "length (content fp') \<le> length (content fp2)"
    using readFile_data_shorter [of endian retparam st3 fp2] by (simp add: d)
  with l1 l2 show ?thesis by simp
qed

function readFile_loop :: "instrument_fn \<Rightarrow> string \<Rightarrow> evt \<Rightarrow> stream
    \<Rightarrow> (error + unit) \<times> evt \<times> stream" where
  "readFile_loop instrument endian st fp =
     (case readFile_body instrument endian st fp of
        (Inl e, st1, fp1) \<Rightarrow>
          if e = EVTEOFError then (Inr (), st1, fp1) else (Inl e, st1, fp1)
      | (Inr u, st1, fp1) \<Rightarrow> readFile_loop instrument endian st1 fp1)"
  by pat_completeness auto
termination
  by (relation "measure (\<lambda>(instrument, endian, st, fp). length (content fp))")
    (auto dest: readFile_body_shorter [OF sym])

text \<open>
  \<^verbatim>\<open>calibration\<close>. The division \<^verbatim>\<open>8388608.0 / chan_fullscale[i]\<close> of Python floats
  raises \<^verbatim>\<open>ZeroDivisionError\<close> for a zero; the arithmetic on the samples is that of
  numpy, which does not raise. The quotient is not computed here: a calibrated sample
  is kept as the raw value with the two constants it has been divided by.
\<close>

definition float_is_zero :: "pyval \<Rightarrow> bool" where
  "float_is_zero v = (case v of PFloat w \<Rightarrow> w = 0 \<or> w = 0x80000000 | PInt n \<Rightarrow> n = 0 | _ \<Rightarrow> False)"

definition list_item :: "dico \<Rightarrow> string \<Rightarrow> nat \<Rightarrow> error + pyval" where
  "list_item d k i =
     (case getattr d k of
        Inl e \<Rightarrow> Inl e
      | Inr (PList vs) \<Rightarrow> if i < length vs then Inr (vs ! i) else Inl IndexError
      | Inr v \<Rightarrow> Inl TypeError)"

definition calibrate :: "pyval \<Rightarrow> pyval \<Rightarrow> sample \<Rightarrow> sample" where
  "calibrate fullscale sensitivity s =
     (case s of Count v \<Rightarrow> Calibrated v fullscale sensitivity | Calibrated v f g \<Rightarrow> Calibrated v f g)"

fun calibration_loop :: "dico \<Rightarrow> nat list \<Rightarrow> sample list list \<Rightarrow> (error + unit) \<times> sample list list" where
  "calibration_loop d [] rows = (Inr (), rows)"
| "calibration_loop d (i # is) rows =
     (case list_item d ''chan_fullscale'' i of
        Inl e \<Rightarrow> (Inl e, rows)
      | Inr fullscale \<Rightarrow>
          if float_is_zero fullscale then (Inl ZeroDivisionError, rows)
          else (case list_item d ''chan_sensitivity'' i of
                  Inl e \<Rightarrow> (Inl e, rows)
                | Inr sensitivity \<Rightarrow>
                    if i < length rows
                    then calibration_loop d is
                           (rows[i := map (calibrate fullscale sensitivity) (rows ! i)])
                    else (Inl IndexError, rows)))"

definition calibration :: "evt \<Rightarrow> (error + unit) \<times> evt" where
  "calibration st =
     (case getint (EHeader_dico st) ''nchannels'' of
        Inl e \<Rightarrow> (Inl e, st)
      | Inr n \<Rightarrow>
          (case calibration_loop (EHeader_dico st) [0..<nat n] (data st) of
             (r, rows) \<Rightarrow> (r, st\<lparr>data := rows\<rparr>)))"

text \<open>
  The traces handed to \<^verbatim>\<open>Stream\<close>: one \<^verbatim>\<open>Trace\<close> for each channel of the file header,
  with the fields of \<^verbatim>\<open>stats\<close> that \<^verbatim>\<open>readFile\<close> sets.
\<close>

record trace =
  trace_data :: "sample list"
  channel :: string
  station :: string
  sampling_rate :: int
  starttime :: pyval
  kinemetrics_evt :: "(string \<times> pyval) list"

text \<open>\<^verbatim>\<open>str(i)\<close>\<close>

fun str_nat :: "nat \<Rightarrow> string" where
  "str_nat n =
     (if n < 10 then [char_of (48 + n)] else str_nat (n div 10) @ [char_of (48 + n mod 10)])"

definition make_trace :: "evt \<Rightarrow> nat \<Rightarrow> error + trace" where
  "make_trace st i =
     (if \<not> i < length (data st) then Inl IndexError
      else (case getattr (EHeader_dico st) ''stnid'' of
        Inl e \<Rightarrow> Inl e
      | Inr (PStr stnid) \<Rightarrow>
          (case getattr (EHeader_dico st) ''starttime'' of
             Inl e \<Rightarrow> Inl e
           | Inr t \<Rightarrow>
               (case makeobspydico (EHeader_dico st) i of
                  Inl e \<Rightarrow> Inl e
                | Inr dico \<Rightarrow>
                    Inr \<lparr>trace_data = data st ! i,
                         channel = str_nat i,
                         station = filter (\<lambda>c. c \<noteq> CHR 0x00) stnid,
                         sampling_rate = samplingrate st,
                         starttime = t,
                         kinemetrics_evt = dico\<rparr>))
      | Inr v \<Rightarrow> Inl TypeError))"

fun make_traces :: "evt \<Rightarrow> nat list \<Rightarrow> error + trace list" where
  "make_traces st [] = Inr []"
| "make_traces st (i # is) =
     (case make_trace st i of
        Inl e \<Rightarrow> Inl e
      | Inr t \<Rightarrow> (case make_traces st is of Inl e \<Rightarrow> Inl e | Inr ts \<Rightarrow> Inr (t # ts)))"

text \<open>
  \<^verbatim>\<open>readFile\<close> from the check of the number of blocks on: the calibration, the only call
  of \<^verbatim>\<open>close()\<close>, and the traces.
\<close>

definition readFile_finish :: "bool \<Rightarrow> bool \<Rightarrow> evt \<Rightarrow> stream \<Rightarrow> (error + trace list) \<times> evt \<times> stream" where
  "readFile_finish is_fileobject Raw st fp =
     (case getattr (EHeader_dico st) ''duration'' of
        Inl e \<Rightarrow> (Inl e, st, fp)
      | Inr duration \<Rightarrow>
          if PInt (EFrame_numframe st) \<noteq> duration
          then (Inl (EVTBadDataError ''Bad number of blocks''), st, fp)
          else (case (if \<not> Raw then calibration st else (Inr (), st)) of
                  (Inl e, st1) \<Rightarrow> (Inl e, st1, fp)
                | (Inr u, st1) \<Rightarrow>
                    let fp1 = (if is_fileobject = False then fp\<lparr>closed := True\<rparr> else fp) in
                    (case getint (EHeader_dico st1) ''nchannels'' of
                       Inl e \<Rightarrow> (Inl e, st1, fp1)
                     | Inr n \<Rightarrow>
                         (case make_traces st1 [0..<nat n] of
                            Inl e \<Rightarrow> (Inl e, st1, fp1)
                          | Inr traces \<Rightarrow> (Inr traces, st1, fp1)))))"

text \<open>
  \<^verbatim>\<open>readFile\<close> from the first tag to the allocation of \<^verbatim>\<open>self.data\<close>, after
  \<^verbatim>\<open>file_pointer\<close> is bound. \<^verbatim>\<open>endian\<close> is bound once, to the byte order of the
  first tag, and is the value returned here. \<^verbatim>\<open>np.ndarray([nchannels, 0])\<close> has
  \<^verbatim>\<open>nchannels\<close> empty rows.
\<close>

definition readFile_header :: "instrument_fn \<Rightarrow> evt \<Rightarrow> stream
    \<Rightarrow> (error + string) \<times> evt \<times> stream" where
  "readFile_header instrument st file_pointer =
     (case EVT_TAG_read instrument st file_pointer of
        (Inl e, st1, fp1) \<Rightarrow> (Inl e, st1, fp1)
      | (Inr u, st1, fp1) \<Rightarrow>
     (case ETag_endian st1 of
        PStr endian \<Rightarrow>
          let st2 = st1\<lparr>EHeader_dico := unsetdico EVT_HEADER_HEADER (EHeader_dico st1)\<rparr> in
          (case getint (ETag_dico st2) ''length'' of
             Inl e \<Rightarrow> (Inl e, st2, fp1)
           | Inr len \<Rightarrow>
          (case EVT_HEADER_read instrument st2 fp1 len endian of
             (Inl e, st3, fp2) \<Rightarrow> (Inl e, st3, fp2)
           | (Inr u, st3, fp2) \<Rightarrow>
          (case getint (EHeader_dico st3) ''nchannels'' of
             Inl e \<Rightarrow> (Inl e, st3, fp2)
           | Inr n \<Rightarrow>
               if n < 0 then (Inl ValueError, st3, fp2)
               else (Inr endian, st3\<lparr>data := replicate (nat n) []\<rparr>, fp2))))
      | v \<Rightarrow> (Inl TypeError, st1, fp1)))"

text \<open>
  \<^verbatim>\<open>readFile\<close> after \<^verbatim>\<open>file_pointer\<close> is bound: the file header, the loop over the
  frames, and the rest.
\<close>

definition readFile_stream :: "instrument_fn \<Rightarrow> evt \<Rightarrow> bool \<Rightarrow> stream \<Rightarrow> bool
    \<Rightarrow> (error + trace list) \<times> evt \<times> stream" where
  "readFile_stream instrument st is_fileobject file_pointer Raw =
     (case readFile_header instrument st file_pointer of
        (Inl e, st3, fp2) \<Rightarrow> (Inl e, st3, fp2)
      | (Inr endian, st3, fp2) \<Rightarrow>
          (case readFile_loop instrument endian st3 fp2 of
             (Inl e, st4, fp3) \<Rightarrow> (Inl e, st4, fp3)
           | (Inr u, st4, fp3) \<Rightarrow> readFile_finish is_fileobject Raw st4 fp3))"

text \<open>
  \<^verbatim>\<open>EVT.readFile(filename_or_object, Raw)\<close>: an object with \<^verbatim>\<open>seek\<close>, \<^verbatim>\<open>tell\<close> and
  \<^verbatim>\<open>read\<close> is used as it is; anything else is opened as a file.
\<close>

definition readFile :: "instrument_fn \<Rightarrow> evt \<Rightarrow> source \<Rightarrow> bool
    \<Rightarrow> (error + trace list) \<times> evt \<times> stream" where
  "readFile instrument st filename_or_object Raw =
     (case filename_or_object of
        FileObject fp \<Rightarrow> readFile_stream instrument st True fp Raw
      | Filename file_bytes \<Rightarrow>
          readFile_stream instrument st False \<lparr>content = file_bytes, closed = False\<rparr> Raw)"

section \<open>Properties\<close>

subsection \<open>The float product and the sample loops\<close>

lemma round_half_even_ge_floor: "\<lfloor>q\<rfloor> \<le> round_half_even q"
  by (simp add: round_half_even_def Let_def)

lemma round_half_even_of_int: "round_half_even (of_int n) = n"
  by (simp add: round_half_even_def Let_def)

lemma scaled_round_ge:
  assumes "of_int n \<le> x"
  shows "(of_int n :: rat) \<le> of_int (round_half_even (x * 2 ^ k)) / 2 ^ k"
proof -
  have "(of_int (n * 2 ^ k) :: rat) \<le> x * 2 ^ k"
    using assms by simp
  then have "n * 2 ^ k \<le> \<lfloor>x * 2 ^ k\<rfloor>"
    by (simp add: le_floor_iff)
  then have "n * 2 ^ k \<le> round_half_even (x * 2 ^ k)"
    using round_half_even_ge_floor [of "x * 2 ^ k"] by linarith
  then have "(of_int (n * 2 ^ k) :: rat) \<le> of_int (round_half_even (x * 2 ^ k))"
    by (simp only: of_int_le_iff)
  then show ?thesis
    by (simp add: pos_le_divide_eq)
qed

lemma binary64_ge_int: "of_int n \<le> x \<Longrightarrow> of_int n \<le> binary64 x"
  by (simp add: binary64_def scaled_round_ge)

lemma binary64_of_int: "binary64 (of_int n) = of_int n"
proof -
  have "(of_int n :: rat) * 2 ^ k = of_int (n * 2 ^ k)" for k
    by simp
  then have "round_half_even (of_int n * 2 ^ k) = n * 2 ^ k" for k
    by (simp only: round_half_even_of_int)
  then show ?thesis
    by (simp add: binary64_def)
qed

lemma expected_length_ge:
  assumes "0 \<le> numbyte" "0 \<le> numchan"
  shows "of_int ((samplerate div 10) * numbyte * numchan) \<le> expected_length samplerate numbyte numchan"
proof -
  have "(of_int (samplerate div 10) :: rat) \<le> of_int samplerate / of_int 10"
    by (simp add: le_divide_eq floor_divide_of_int_eq [symmetric] del: of_int_numeral) 
  then have a: "of_int (samplerate div 10) \<le> truediv samplerate 10"
    unfolding truediv_def by (rule binary64_ge_int)
  have "(of_int ((samplerate div 10) * numbyte) :: rat) \<le> truediv samplerate 10 * of_int numbyte"
    using a assms(1) by (simp add: mult_right_mono)
  then have b: "of_int ((samplerate div 10) * numbyte) \<le> fmul (truediv samplerate 10) numbyte"
    unfolding fmul_def by (rule binary64_ge_int)
  have "(of_int ((samplerate div 10) * numbyte) :: rat) * of_int numchan
      \<le> fmul (truediv samplerate 10) numbyte * of_int numchan"
    using b assms(2) by (intro mult_right_mono) simp_all
  then have "(of_int ((samplerate div 10) * numbyte * numchan) :: rat)
      \<le> fmul (truediv samplerate 10) numbyte * of_int numchan"
    by (simp only: of_int_mult)
  then show ?thesis
    unfolding expected_length_def fmul_def [of "fmul (truediv samplerate 10) numbyte"]
    by (rule binary64_ge_int)
qed

lemma expected_length_exact:
  "10 dvd samplerate \<Longrightarrow>
   expected_length samplerate numbyte numchan = of_int ((samplerate div 10) * numbyte * numchan)"
proof -
  assume d: "10 dvd samplerate"
  then obtain q where q: "samplerate = 10 * q" by (auto simp: dvd_def)
  have f: "fmul (of_int a) n = of_int (a * n)" for a n
    unfolding fmul_def of_int_mult [symmetric] by (rule binary64_of_int)
  have t: "truediv samplerate 10 = of_int q"
    by (simp add: truediv_def q binary64_of_int)
  show ?thesis
    by (simp only: expected_length_def t f) (simp add: q)
qed


lemmas unpack_defs = unpack_def fmt_body_def order_of_def is_digit_def digit_val_def
  code_size_def calcsize_def item_size_def unpack_one_def Let_def

lemma unpack_be_i:
  "length bs = 4 \<Longrightarrow> unpack ''>i'' bs = Inr [PInt (signed 32 (bytes_nat BigEndian bs))]"
  by (simp add: unpack_defs)

lemma replicate_2: "replicate 2 x = [x, x]"
  by (simp add: numeral_2_eq_2)

lemma read_val_ok:
  assumes "numbyte = 2 \<or> numbyte = 3 \<or> numbyte = 4"
    and "(i + 1) * nat numbyte \<le> length buff"
  shows "read_val buff numbyte i st =
    (Inr (sample_value (nat numbyte) (slice buff (i * nat numbyte) (i * nat numbyte + nat numbyte))),
     st\<lparr>unpack_log := unpack_log st @ [(DataSample, BigEndian)]\<rparr>)"
proof -
  have len: "length (slice buff (i * nat numbyte) (i * nat numbyte + nat numbyte)) = nat numbyte"
    using assms(2) by (simp add: slice_def)
  from assms(1) show ?thesis
  proof (elim disjE)
    assume n: "numbyte = 2"
    with len have "length (slice buff (i * 2) (i * 2 + 2) @ [0, 0]) = 4" by simp
    then show ?thesis
      by (simp add: read_val_def unpack_logged_def unpack_be_i n sample_value_def
          first_int_def shift_right8_def order_of_def Let_def replicate_2)
  next
    assume n: "numbyte = 3"
    with len have "length (slice buff (i * 3) (i * 3 + 3) @ [0]) = 4" by simp
    then show ?thesis
      by (simp add: read_val_def unpack_logged_def unpack_be_i n sample_value_def
          first_int_def shift_right8_def order_of_def Let_def replicate_2)
  next
    assume n: "numbyte = 4"
    with len have "length (slice buff (i * 4) (i * 4 + 4)) = 4" by simp
    then show ?thesis
      by (simp add: read_val_def unpack_logged_def unpack_be_i n sample_value_def
          first_int_def order_of_def Let_def)
  qed
qed

lemma loop_k_ok:
  assumes "numbyte = 2 \<or> numbyte = 3 \<or> numbyte = 4"
    and "\<And>k. k \<in> set ks \<Longrightarrow> k < length d \<and> (j * numchan + k + 1) * nat numbyte \<le> length buff"
    and "distinct ks"
  shows "loop_k buff numbyte numchan j ks d st =
    (Inr (map (\<lambda>k. if k \<in> set ks then d ! k @ [val_at buff numbyte (j * numchan + k)] else d ! k)
            [0..<length d]),
     st\<lparr>unpack_log := unpack_log st @ replicate (length ks) (DataSample, BigEndian)\<rparr>)"
  using assms(2,3)
proof (induction ks arbitrary: d st)
  case Nil
  then show ?case by (simp add: map_nth)
next
  case (Cons k ks)
  let ?v = "val_at buff numbyte (j * numchan + k)"
  let ?d = "d[k := d ! k @ [?v]]"
  let ?st = "st\<lparr>unpack_log := unpack_log st @ [(DataSample, BigEndian)]\<rparr>"
  have k: "k < length d" "(j * numchan + k + 1) * nat numbyte \<le> length buff" "k \<notin> set ks"
    using Cons.prems by auto
  have rv: "read_val buff numbyte (j * numchan + k) st = (Inr ?v, ?st)"
    using read_val_ok [OF assms(1) k(2)] by (simp add: val_at_def)
  have ih: "loop_k buff numbyte numchan j ks ?d ?st =
    (Inr (map (\<lambda>k'. if k' \<in> set ks then ?d ! k' @ [val_at buff numbyte (j * numchan + k')] else ?d ! k')
            [0..<length ?d]),
     ?st\<lparr>unpack_log := unpack_log ?st @ replicate (length ks) (DataSample, BigEndian)\<rparr>)"
    using Cons.prems by (intro Cons.IH) auto
  have eq: "map (\<lambda>k'. if k' \<in> set ks then ?d ! k' @ [val_at buff numbyte (j * numchan + k')] else ?d ! k')
            [0..<length ?d]
     = map (\<lambda>k'. if k' \<in> set (k # ks) then d ! k' @ [val_at buff numbyte (j * numchan + k')] else d ! k')
            [0..<length d]"
    using k by (auto simp: nth_list_update)
  show ?case
    by (simp only: loop_k.simps rv ih eq prod.case sum.case) simp
qed

lemma loop_k_all:
  assumes "numbyte = 2 \<or> numbyte = 3 \<or> numbyte = 4"
    and "length d = numchan"
    and "(j * numchan + numchan) * nat numbyte \<le> length buff"
  shows "loop_k buff numbyte numchan j [0..<numchan] d st =
    (Inr (map (\<lambda>k. d ! k @ [val_at buff numbyte (j * numchan + k)]) [0..<numchan]),
     st\<lparr>unpack_log := unpack_log st @ replicate numchan (DataSample, BigEndian)\<rparr>)"
proof -
  have b: "k < length d \<and> (j * numchan + k + 1) * nat numbyte \<le> length buff"
    if "k \<in> set [0..<numchan]" for k
  proof -
    from that have "k < numchan" by simp
    then have "j * numchan + k + 1 \<le> j * numchan + numchan" by simp
    then have "(j * numchan + k + 1) * nat numbyte \<le> (j * numchan + numchan) * nat numbyte"
      by (rule mult_le_mono1)
    with assms \<open>k < numchan\<close> show ?thesis by simp
  qed
  show ?thesis
    using loop_k_ok [OF assms(1) b, of "[0..<numchan]" st] assms(2) by (simp cong: map_cong)
qed

lemma loop_j_ok:
  assumes "numbyte = 2 \<or> numbyte = 3 \<or> numbyte = 4"
    and "length d = numchan"
    and "\<And>j. j \<in> set js \<Longrightarrow> (j * numchan + numchan) * nat numbyte \<le> length buff"
  shows "loop_j buff numbyte numchan js d st =
    (Inr (map (\<lambda>k. d ! k @ map (\<lambda>j. val_at buff numbyte (j * numchan + k)) js) [0..<numchan]),
     st\<lparr>unpack_log := unpack_log st @ replicate (length js * numchan) (DataSample, BigEndian)\<rparr>)"
  using assms(2,3)
proof (induction js arbitrary: d st)
  case Nil
  then show ?case by (auto simp: map_nth intro: nth_equalityI)
next
  case (Cons j js)
  let ?d = "map (\<lambda>k. d ! k @ [val_at buff numbyte (j * numchan + k)]) [0..<numchan]"
  let ?st = "st\<lparr>unpack_log := unpack_log st @ replicate numchan (DataSample, BigEndian)\<rparr>"
  have lk: "loop_k buff numbyte numchan j [0..<numchan] d st = (Inr ?d, ?st)"
    using Cons.prems by (intro loop_k_all assms(1)) auto
  have ih: "loop_j buff numbyte numchan js ?d ?st =
    (Inr (map (\<lambda>k. ?d ! k @ map (\<lambda>j. val_at buff numbyte (j * numchan + k)) js) [0..<numchan]),
     ?st\<lparr>unpack_log := unpack_log ?st @ replicate (length js * numchan) (DataSample, BigEndian)\<rparr>)"
    using Cons.prems by (intro Cons.IH) auto
  show ?case
    by (simp only: loop_j.simps lk ih prod.case sum.case) (simp add: replicate_add)
qed

lemma flat_index_bound:
  fixes j n c w :: nat
  assumes "j < n"
  shows "(j * c + c) * w \<le> n * c * w"
proof -
  have "Suc j * c \<le> n * c"
    using assms by (intro mult_le_mono1) simp
  then have "j * c + c \<le> n * c" by simp
  then show ?thesis by (rule mult_le_mono1)
qed

lemma EVT_DATA_read_ok:
  assumes nb: "numbyte = 2 \<or> numbyte = 3 \<or> numbyte = 4"
    and nc: "0 \<le> numchan" and sr: "0 \<le> samplerate"
    and m: "of_int len = expected_length samplerate numbyte numchan"
    and av: "nat len \<le> length (content fp)"
  shows "EVT_DATA_read st fp len endian (samplerate, numbyte, blocktime, numchan) =
     (Inr (map (\<lambda>k. map (\<lambda>j. val_at (take (nat len) (content fp)) numbyte (j * nat numchan + k))
                       [0..<nat (samplerate div 10)])
             [0..<nat numchan]),
      st\<lparr>unpack_log := unpack_log st
           @ replicate (nat (samplerate div 10) * nat numchan) (DataSample, BigEndian)\<rparr>,
      fp\<lparr>content := drop (nat len) (content fp)\<rparr>)"
proof -
  let ?n = "nat (samplerate div 10)" and ?c = "nat numchan" and ?w = "nat numbyte"
  let ?buff = "take (nat len) (content fp)"
  have nb0: "0 \<le> numbyte" using nb by auto
  have "(of_int ((samplerate div 10) * numbyte * numchan) :: rat) \<le> of_int len"
    using expected_length_ge [OF nb0 nc, of samplerate] m by simp
  then have le: "(samplerate div 10) * numbyte * numchan \<le> len"
    by (simp only: of_int_le_iff)
  have "0 \<le> (samplerate div 10) * numbyte * numchan"
    using nb0 nc sr by (simp add: pos_imp_zdiv_nonneg_iff)
  with le have len0: "0 \<le> len" by simp
  have "?n * ?c * ?w = nat ((samplerate div 10) * numchan * numbyte)"
    using nb0 nc sr by (simp add: nat_mult_distrib pos_imp_zdiv_nonneg_iff)
  also have "\<dots> = nat ((samplerate div 10) * numbyte * numchan)"
    by (simp add: ac_simps)
  also have "\<dots> \<le> nat len"
    using le by (rule nat_mono)
  finally have tot: "?n * ?c * ?w \<le> length ?buff"
    using av by simp
  have b: "(j * ?c + ?c) * ?w \<le> length ?buff" if "j \<in> set [0..<?n]" for j
  proof -
    from that have "j < ?n" by simp
    then have "(j * ?c + ?c) * ?w \<le> ?n * ?c * ?w" by (rule flat_index_bound)
    then show ?thesis using tot by (rule order_trans)
  qed
  have lj: "loop_j ?buff numbyte ?c [0..<?n] (replicate ?c []) st =
    (Inr (map (\<lambda>k. replicate ?c [] ! k @ map (\<lambda>j. val_at ?buff numbyte (j * ?c + k)) [0..<?n])
            [0..<?c]),
     st\<lparr>unpack_log := unpack_log st
          @ replicate (length [0..<?n] * ?c) (DataSample, BigEndian)\<rparr>)"
    using b by (intro loop_j_ok nb) simp_all
  have eq: "map (\<lambda>k. replicate ?c [] ! k @ map (\<lambda>j. val_at ?buff numbyte (j * ?c + k)) [0..<?n])
            [0..<?c]
     = map (\<lambda>k. map (\<lambda>j. val_at ?buff numbyte (j * ?c + k)) [0..<?n]) [0..<?c]"
    by simp
  show ?thesis
    using m len0 by (simp add: EVT_DATA_read_def fp_read_def lj eq)
qed

lemma EVT_DATA_read_mismatch:
  "of_int len \<noteq> expected_length samplerate numbyte numchan \<Longrightarrow>
   EVT_DATA_read st fp len endian (samplerate, numbyte, blocktime, numchan) =
     (Inl (EVTBadDataError ''Bad data length''), st, snd (fp_read len fp))"
  by (simp add: EVT_DATA_read_def split: prod.splits)

lemma sample_value_all_ones:
  "sample_value 2 [255, 255] = - 256"
  "sample_value 3 [255, 255, 255] = - 1"
  "sample_value 4 [255, 255, 255, 255] = - 1"
  by (simp_all add: sample_value_def signed_def bytes_nat_def replicate_2)

lemma replicate_3: "replicate 3 x = [x, x, x]"
  by (simp add: numeral_3_eq_3)

lemma replicate_4: "replicate 4 x = [x, x, x, x]"
  by (simp add: numeral_eq_Suc)

lemma upt_0_1: "[0..<1] = [0]"
  by simp

lemma upt_0_2: "[0..<2] = [0, 1]"
  by (simp add: numeral_2_eq_2)

lemma sample_value_replicate:
  "sample_value 2 (replicate 2 255) = - 256"
  "sample_value 3 (replicate 3 255) = - 1"
  "sample_value 4 (replicate 4 255) = - 1"
  by (simp_all only: replicate_2 replicate_3 replicate_4 sample_value_all_ones)

subsection \<open>Claims on EVT\_DATA.read\<close>

text \<open>
  The blocks that \<^verbatim>\<open>EVT_DATA.read\<close> accepts. When the declared length equals the float
  \<^verbatim>\<open>num\<close> and the stream holds that many bytes, the result is \<^verbatim>\<open>numchan\<close> lists of
  \<^verbatim>\<open>samplerate // 10\<close> values each; the value at position \<open>j\<close> of channel \<open>k\<close> is the
  sample of the bytes \<open>[(j * numchan + k) * numbyte, (j * numchan + k) * numbyte + numbyte)\<close>
  of the buffer, read big-endian, whatever \<^verbatim>\<open>endian\<close> is. The sampling rate, the sample
  size and the number of channels range over what a frame header yields.
\<close>

theorem EVT_DATA_read_channels:
  assumes "0 \<le> samplerate" and "samplerate \<le> 4095"
    and "numbyte = 2 \<or> numbyte = 3 \<or> numbyte = 4"
    and "0 \<le> numchan" and "numchan \<le> 12"
    and "of_int len = expected_length samplerate numbyte numchan"
    and "nat len \<le> length (content fp)"
  shows "\<exists>d st'. EVT_DATA_read st fp len endian (samplerate, numbyte, blocktime, numchan)
             = (Inr d, st', fp\<lparr>content := drop (nat len) (content fp)\<rparr>)
      \<and> length d = nat numchan
      \<and> (\<forall>k < nat numchan. length (d ! k) = nat (samplerate div 10)
            \<and> (\<forall>j < nat (samplerate div 10).
                  d ! k ! j = sample_value (nat numbyte)
                    (slice (take (nat len) (content fp))
                       ((j * nat numchan + k) * nat numbyte)
                       ((j * nat numchan + k) * nat numbyte + nat numbyte))))"
  using EVT_DATA_read_ok [OF assms(3,4,1,6,7), of st endian blocktime]
  by (simp add: val_at_def)

theorem EVT_DATA_read_channels_witness:
  "fst (EVT_DATA_read EVT_init
          \<lparr>content = [0, 0, 1, 0, 0, 2, 0, 0, 3, 255, 255, 254, 75, 1], closed = False\<rparr>
          12 ''<'' (20, 3, PNone, 2)) = Inr [[1, 3], [2, - 2]]
   \<and> (\<exists>d st'. EVT_DATA_read EVT_init
          \<lparr>content = [0, 0, 1, 0, 0, 2, 0, 0, 3, 255, 255, 254, 75, 1], closed = False\<rparr>
          12 ''<'' (20, 3, PNone, 2)
             = (Inr d, st', \<lparr>content = [75, 1], closed = False\<rparr>)
      \<and> length d = 2
      \<and> (\<forall>k < 2. length (d ! k) = 2
            \<and> (\<forall>j < 2. d ! k ! j = sample_value 3
                    (slice [0, 0, 1, 0, 0, 2, 0, 0, 3, 255, 255, 254] ((j * 2 + k) * 3)
                       ((j * 2 + k) * 3 + 3)))))"
proof -
  have m: "of_int 12 = expected_length 20 3 2"
    by (simp add: expected_length_exact)
  have "fst (EVT_DATA_read EVT_init
          \<lparr>content = [0, 0, 1, 0, 0, 2, 0, 0, 3, 255, 255, 254, 75, 1], closed = False\<rparr>
          12 ''<'' (20, 3, PNone, 2)) = Inr [[1, 3], [2, - 2]]"
    by (subst EVT_DATA_read_ok [OF _ _ _ m])
      (simp_all add: val_at_def sample_value_def slice_def signed_def bytes_nat_def
        upt_0_2)
  moreover have "\<exists>d st'. EVT_DATA_read EVT_init
          \<lparr>content = [0, 0, 1, 0, 0, 2, 0, 0, 3, 255, 255, 254, 75, 1], closed = False\<rparr>
          12 ''<'' (20, 3, PNone, 2)
             = (Inr d, st', \<lparr>content = [75, 1], closed = False\<rparr>)
      \<and> length d = 2
      \<and> (\<forall>k < 2. length (d ! k) = 2
            \<and> (\<forall>j < 2. d ! k ! j = sample_value 3
                    (slice [0, 0, 1, 0, 0, 2, 0, 0, 3, 255, 255, 254] ((j * 2 + k) * 3)
                       ((j * 2 + k) * 3 + 3))))"
    using EVT_DATA_read_channels [of 20 3 2 12
        "\<lparr>content = [0, 0, 1, 0, 0, 2, 0, 0, 3, 255, 255, 254, 75, 1], closed = False\<rparr>"
        EVT_init "''<''" PNone] m
    by simp
  ultimately show ?thesis by (rule conjI)
qed



text \<open>
  C1, as the code has it. In a data block that is decoded, a sample whose bytes are all
  1-bits has the value -1 when the samples are 3 or 4 bytes wide. A sample of 2 bytes
  is padded with two zero bytes and shifted by eight bits like a sample of 3 bytes, so
  that it is the 16-bit value times 256: all 1-bits give -256.
\<close>

theorem all_ones_sample:
  assumes "0 \<le> samplerate" and "samplerate \<le> 4095"
    and "numbyte = 2 \<or> numbyte = 3 \<or> numbyte = 4"
    and "0 \<le> numchan" and "numchan \<le> 12"
    and "of_int len = expected_length samplerate numbyte numchan"
    and "nat len \<le> length (content fp)"
    and "j < nat (samplerate div 10)" and "k < nat numchan"
    and "slice (take (nat len) (content fp)) ((j * nat numchan + k) * nat numbyte)
           ((j * nat numchan + k) * nat numbyte + nat numbyte) = replicate (nat numbyte) 255"
  shows "\<exists>d st' fp'. EVT_DATA_read st fp len endian (samplerate, numbyte, blocktime, numchan)
             = (Inr d, st', fp')
      \<and> d ! k ! j = (if numbyte = 2 then - 256 else - 1)"
proof -
  have "val_at (take (nat len) (content fp)) numbyte (j * nat numchan + k)
      = (if numbyte = 2 then - 256 else - 1)"
    using assms(3,10) by (auto simp: val_at_def sample_value_replicate)
  then show ?thesis
    using EVT_DATA_read_ok [OF assms(3,4,1,6,7), of st endian blocktime] assms(8,9)
    by simp
qed

theorem all_ones_sample_witness:
  "(\<exists>d st' fp'. EVT_DATA_read EVT_init \<lparr>content = [0, 0, 0, 255, 255, 255], closed = False\<rparr>
        6 ''>'' (10, 3, PNone, 2) = (Inr d, st', fp') \<and> d ! 1 ! 0 = - 1)
   \<and> (\<exists>d st' fp'. EVT_DATA_read EVT_init \<lparr>content = [0, 0, 0, 0, 255, 255, 255, 255], closed = False\<rparr>
        8 ''>'' (10, 4, PNone, 2) = (Inr d, st', fp') \<and> d ! 1 ! 0 = - 1)
   \<and> (\<exists>d st' fp'. EVT_DATA_read EVT_init \<lparr>content = [0, 0, 255, 255], closed = False\<rparr>
        4 ''>'' (10, 2, PNone, 2) = (Inr d, st', fp') \<and> d ! 1 ! 0 = - 256)"
proof -
  have m: "of_int 6 = expected_length 10 3 2" "of_int 8 = expected_length 10 4 2"
    "of_int 4 = expected_length 10 2 2"
    by (simp_all add: expected_length_exact)
  have r: "replicate 3 (255 :: byte) = [255, 255, 255]" "replicate 4 (255 :: byte) = [255, 255, 255, 255]"
    "replicate 2 (255 :: byte) = [255, 255]"
    by (simp_all only: replicate_2 replicate_3 replicate_4)
  show ?thesis
    using all_ones_sample [of 10 3 2 6 "\<lparr>content = [0, 0, 0, 255, 255, 255], closed = False\<rparr>"
        0 1 EVT_init "''>''" PNone]
      all_ones_sample [of 10 4 2 8 "\<lparr>content = [0, 0, 0, 0, 255, 255, 255, 255], closed = False\<rparr>"
        0 1 EVT_init "''>''" PNone]
      all_ones_sample [of 10 2 2 4 "\<lparr>content = [0, 0, 255, 255], closed = False\<rparr>"
        0 1 EVT_init "''>''" PNone]
    by (simp add: m [symmetric] slice_def r)
qed

text \<open>
  The claim C1 as stated fails for 2-byte samples: one channel, one sample with the bytes
  \<open>FF FF\<close>, decoded to -256.
\<close>

theorem all_ones_width2_counterexample:
  "fst (EVT_DATA_read EVT_init \<lparr>content = [255, 255], closed = False\<rparr> 2 ''>''
         (10, 2, PNone, 1)) = Inr [[- 256]]"
proof -
  have m: "of_int 2 = expected_length 10 2 1"
    by (simp add: expected_length_exact)
  show ?thesis
    by (subst EVT_DATA_read_ok [OF _ _ _ m])
      (simp_all add: val_at_def slice_def sample_value_all_ones)
qed

subsection \<open>Unpacking a repeated format\<close>

lemma le_nat_replicate_0 [simp]: "le_nat (replicate n 0) = 0"
  by (induction n) simp_all

lemma calcsize_Nil [simp]: "calcsize [] = 0"
  by (simp add: calcsize_def)

lemma calcsize_Cons [simp]: "calcsize (it # its) = item_size it + calcsize its"
  by (simp add: calcsize_def)

lemma calcsize_append [simp]: "calcsize (xs @ ys) = calcsize xs + calcsize ys"
  by (simp add: calcsize_def)

lemma calcsize_concat_replicate [simp]:
  "calcsize (concat (replicate n its)) = n * calcsize its"
  by (induction n) simp_all

lemma unpack_items_append:
  "unpack_items e (xs @ ys) bs = unpack_items e xs bs @ unpack_items e ys (drop (calcsize xs) bs)"
proof (induction xs arbitrary: bs)
  case Nil
  then show ?case by simp
next
  case (Cons it xs)
  obtain n c where it: "it = (n, c)" by (cases it)
  show ?case
    by (simp add: it Cons.IH item_size_def code_size_def Let_def add.commute)
qed

lemma unpack_items_concat_replicate:
  "unpack_items e (concat (replicate n its)) bs =
     concat (map (\<lambda>i. unpack_items e its (drop (i * calcsize its) bs)) [0..<n])"
proof (induction n arbitrary: bs)
  case 0
  then show ?case by simp
next
  case (Suc n)
  have "unpack_items e (concat (replicate (Suc n) its)) bs =
      unpack_items e its bs @ unpack_items e (concat (replicate n its)) (drop (calcsize its) bs)"
    by (simp add: unpack_items_append)
  also have "\<dots> = unpack_items e its bs
      @ concat (map (\<lambda>i. unpack_items e its (drop (Suc i * calcsize its) bs)) [0..<n])"
    by (simp add: Suc.IH add.commute)
  also have "\<dots> = concat (map (\<lambda>i. unpack_items e its (drop (i * calcsize its) bs)) [0..<Suc n])"
    by (simp only: upt_conv_Cons [OF zero_less_Suc] map_Suc_upt [symmetric] list.map concat.simps)
      (simp add: comp_def)
  finally show ?case .
qed

lemma parse_fmt_append:
  "s \<noteq> [] \<Longrightarrow> \<not> is_digit (last s) \<Longrightarrow> parse_fmt c (s @ t) = parse_fmt c s @ parse_fmt None t"
proof (induction s arbitrary: c)
  case Nil
  then show ?case by simp
next
  case (Cons a s)
  show ?case
  proof (cases "s = []")
    case True
    with Cons.prems show ?thesis by simp
  next
    case False
    with Cons.prems have "\<not> is_digit (last s)" by simp
    with False have "parse_fmt c' (s @ t) = parse_fmt c' s @ parse_fmt None t" for c'
      by (rule Cons.IH)
    then show ?thesis by simp
  qed
qed

lemma parse_fmt_concat_replicate:
  assumes "s \<noteq> []" and "\<not> is_digit (last s)"
  shows "parse_fmt None (concat (replicate n s)) = concat (replicate n (parse_fmt None s))"
  by (induction n) (simp_all add: parse_fmt_append [OF assms])

lemma list_ex_concat_replicate:
  "list_ex P (concat (replicate n xs)) = (0 < n \<and> list_ex P xs)"
  by (induction n) (auto simp: list_ex_iff)

lemma unpack_repeated:
  assumes "s \<noteq> []" and "\<not> is_digit (last s)" and "endian = ''>'' \<or> endian = ''<''"
    and "0 < n"
    and "\<not> list_ex (\<lambda>it. code_size (snd it) = None) (parse_fmt None s)"
    and "length buf = n * calcsize (parse_fmt None s)"
  shows "unpack (endian @ concat (replicate n s)) buf =
     Inr (concat (map (\<lambda>i. unpack_items (order_of endian) (parse_fmt None s)
                              (drop (i * calcsize (parse_fmt None s)) buf)) [0..<n]))"
proof -
  have b: "fmt_body (endian @ concat (replicate n s)) = concat (replicate n s)"
    using assms(3) by (auto simp: fmt_body_def)
  have o: "order_of (endian @ concat (replicate n s)) = order_of endian"
    using assms(3) by (auto simp: order_of_def)
  show ?thesis
    using assms(4,5,6)
    by (simp add: unpack_def b o parse_fmt_concat_replicate [OF assms(1,2)]
        list_ex_concat_replicate unpack_items_concat_replicate)
qed

lemma unpack_items_zero4:
  "76 \<le> m \<Longrightarrow>
   unpack_items e (parse_fmt None ''5sbH5h3H4BHBx8f2B10x'') (replicate m 0) =
     [PBytes (replicate 5 0), PInt 0, PInt 0, PInt 0, PInt 0, PInt 0, PInt 0, PInt 0, PInt 0,
      PInt 0, PInt 0, PInt 0, PInt 0, PInt 0, PInt 0, PInt 0, PInt 0, PFloat 0, PFloat 0,
      PFloat 0, PFloat 0, PFloat 0, PFloat 0, PFloat 0, PFloat 0, PInt 0, PInt 0]"
  by (simp add: is_digit_def digit_val_def code_size_def unpack_one_def bytes_nat_def signed_def
      Let_def upt_conv_Cons min_def)

lemma unpack_items_zero2:
  "36 \<le> m \<Longrightarrow>
   unpack_items e (parse_fmt None ''lLlL2l12x'') (replicate m 0) =
     [PInt 0, PInt 0, PInt 0, PInt 0, PInt 0, PInt 0]"
  by (simp add: is_digit_def digit_val_def code_size_def unpack_one_def bytes_nat_def signed_def
      Let_def upt_conv_Cons min_def)

lemma nth_concat_replicate:
  "i < n \<Longrightarrow> j < length V \<Longrightarrow> concat (replicate n V) ! (i * length V + j) = V ! j"
proof (induction n arbitrary: i)
  case 0
  then show ?case by simp
next
  case (Suc n)
  show ?case
  proof (cases i)
    case 0
    with Suc.prems show ?thesis by (simp add: nth_append)
  next
    case (Suc i')
    with Suc.prems have "i' < n" by simp
    then have "concat (replicate n V) ! (i' * length V + j) = V ! j"
      using Suc.prems(2) by (rule Suc.IH)
    then show ?thesis
      by (simp add: Suc nth_append add.assoc)
  qed
qed

lemma length_concat_replicate [simp]: "length (concat (replicate n V)) = n * length V"
  by (induction n) simp_all

lemma array_loop_repeated:
  assumes "stride = int (length V)" and "0 \<le> first" and "first < stride"
    and "\<And>i. i \<in> set is \<Longrightarrow> i < n"
  shows "array_loop (concat (replicate n V)) stride first is = Inr (map (\<lambda>i. V ! nat first) is)"
  using assms(4)
proof (induction "is")
  case Nil
  then show ?case by simp
next
  case (Cons i "is")
  have i: "i < n" using Cons.prems by simp
  have j: "nat first < length V" using assms(1,2,3) by simp
  have idx: "nat (first + int i * stride) = i * length V + nat first"
    using assms(1,2) by (simp add: nat_add_distrib nat_mult_distrib)
  have "i * length V + nat first < n * length V"
  proof -
    have "i * length V + nat first < Suc i * length V" using j by simp
    also have "\<dots> \<le> n * length V" using i by (intro mult_le_mono1) simp
    finally show ?thesis .
  qed
  then have "int (i * length V + nat first) < int (n * length V)"
    by (simp only: of_nat_less_iff)
  moreover have "int (i * length V + nat first) = first + int i * stride"
    using assms(1,2) by simp
  ultimately have r: "first + int i * stride < int (n * length V)"
    by simp
  have nn: "0 \<le> first + int i * stride"
    using assms(1,2) by simp
  have v: "value_at (concat (replicate n V)) (first + int i * stride) = Inr (V ! nat first)"
    using r nn by (simp add: value_at_def idx nth_concat_replicate [OF i j])
  have "array_loop (concat (replicate n V)) stride first is = Inr (map (\<lambda>i. V ! nat first) is)"
    using Cons.prems by (intro Cons.IH) simp
  then show ?case by (simp add: v)
qed

lemma unpack_zero_repeated:
  assumes "s \<noteq> []" and "\<not> is_digit (last s)"
    and ok: "\<not> list_ex (\<lambda>it. code_size (snd it) = None) (parse_fmt None s)"
    and c: "calcsize (parse_fmt None s) = w"
    and z: "\<And>m. w \<le> m \<Longrightarrow> unpack_items (order_of endian) (parse_fmt None s) (replicate m 0) = V"
    and n: "0 < n"
    and e: "endian = ''>'' \<or> endian = ''<''"
  shows "unpack (endian @ concat (replicate n s)) (replicate (n * w) 0) = Inr (concat (replicate n V))"
proof -
  have "unpack (endian @ concat (replicate n s)) (replicate (n * w) 0) =
     Inr (concat (map (\<lambda>i. unpack_items (order_of endian) (parse_fmt None s)
                              (drop (i * calcsize (parse_fmt None s)) (replicate (n * w) 0))) [0..<n]))"
    using assms(1,2) e n ok by (rule unpack_repeated) (simp_all add: c)
  also have "map (\<lambda>i. unpack_items (order_of endian) (parse_fmt None s)
                              (drop (i * calcsize (parse_fmt None s)) (replicate (n * w) 0))) [0..<n]
      = map (\<lambda>i. V) [0..<n]"
  proof (rule map_cong [OF refl])
    fix i assume "i \<in> set [0..<n]"
    then have "Suc i \<le> n" by simp
    then have "Suc i * w \<le> n * w" by (rule mult_le_mono1)
    then have "w \<le> n * w - i * w" by simp
    then show "unpack_items (order_of endian) (parse_fmt None s)
               (drop (i * calcsize (parse_fmt None s)) (replicate (n * w) 0)) = V"
      by (simp only: c drop_replicate z)
  qed
  also have "map (\<lambda>i. V) [0..<n] = replicate n V"
    by (simp add: map_replicate_const)
  finally show ?thesis .
qed

lemma unpack_zero4:
  "endian = ''>'' \<or> endian = ''<'' \<Longrightarrow>
   unpack (endian @ HEADER_STRUCT4) (replicate 912 0) =
     Inr (concat (replicate 12
       [PBytes (replicate 5 0), PInt 0, PInt 0, PInt 0, PInt 0, PInt 0, PInt 0, PInt 0, PInt 0,
        PInt 0, PInt 0, PInt 0, PInt 0, PInt 0, PInt 0, PInt 0, PInt 0, PFloat 0, PFloat 0,
        PFloat 0, PFloat 0, PFloat 0, PFloat 0, PFloat 0, PFloat 0, PInt 0, PInt 0]))"
proof -
  have c: "calcsize (parse_fmt None ''5sbH5h3H4BHBx8f2B10x'') = 76"
    by (simp add: is_digit_def digit_val_def item_size_def code_size_def)
  have ok: "\<not> list_ex (\<lambda>it. code_size (snd it) = None) (parse_fmt None ''5sbH5h3H4BHBx8f2B10x'')"
    by (simp add: is_digit_def digit_val_def code_size_def)
  have d: "''5sbH5h3H4BHBx8f2B10x'' \<noteq> []" "\<not> is_digit (last ''5sbH5h3H4BHBx8f2B10x'')"
    by (simp_all add: is_digit_def)
  assume e: "endian = ''>'' \<or> endian = ''<''"
  have "unpack (endian @ concat (replicate 12 ''5sbH5h3H4BHBx8f2B10x'')) (replicate (12 * 76) 0) =
     Inr (concat (replicate 12
       [PBytes (replicate 5 0), PInt 0, PInt 0, PInt 0, PInt 0, PInt 0, PInt 0, PInt 0, PInt 0,
        PInt 0, PInt 0, PInt 0, PInt 0, PInt 0, PInt 0, PInt 0, PInt 0, PFloat 0, PFloat 0,
        PFloat 0, PFloat 0, PFloat 0, PFloat 0, PFloat 0, PFloat 0, PInt 0, PInt 0]))"
    by (rule unpack_zero_repeated [OF d ok c unpack_items_zero4 _ e]) simp_all
  then show ?thesis
    by (simp only: HEADER_STRUCT4_def) simp
qed

lemma unpack_zero2:
  "endian = ''>'' \<or> endian = ''<'' \<Longrightarrow>
   unpack (endian @ HEADER_STRUCT2) (replicate 432 0) =
     Inr (concat (replicate 12 [PInt 0, PInt 0, PInt 0, PInt 0, PInt 0, PInt 0]))"
proof -
  have c: "calcsize (parse_fmt None ''lLlL2l12x'') = 36"
    by (simp add: is_digit_def digit_val_def item_size_def code_size_def)
  have ok: "\<not> list_ex (\<lambda>it. code_size (snd it) = None) (parse_fmt None ''lLlL2l12x'')"
    by (simp add: is_digit_def digit_val_def code_size_def)
  have d: "''lLlL2l12x'' \<noteq> []" "\<not> is_digit (last ''lLlL2l12x'')"
    by (simp_all add: is_digit_def)
  assume e: "endian = ''>'' \<or> endian = ''<''"
  have "unpack (endian @ concat (replicate 12 ''lLlL2l12x'')) (replicate (12 * 36) 0) =
     Inr (concat (replicate 12 [PInt 0, PInt 0, PInt 0, PInt 0, PInt 0, PInt 0]))"
    by (rule unpack_zero_repeated [OF d ok c unpack_items_zero2 _ e]) simp_all
  then show ?thesis
    by (simp only: HEADER_STRUCT2_def) simp
qed


lemma bytes_nat_replicate_0 [simp]: "bytes_nat e (replicate n 0) = 0"
  by (simp add: bytes_nat_def)

lemma signed_0 [simp]: "signed w 0 = 0"
  by (simp add: signed_def)

lemma unpack_zero1:
  "endian = ''>'' \<or> endian = ''<'' \<Longrightarrow> unpack (endian @ HEADER_STRUCT1) (replicate 124 0) =
     Inr (PBytes (replicate 3 0) # replicate 34 (PInt 0))"
  apply (erule disjE)
  apply (simp_all add: HEADER_STRUCT1_def unpack_def fmt_body_def order_of_def is_digit_def digit_val_def
      code_size_def item_size_def unpack_one_def Let_def upt_conv_Cons)
  apply (simp_all add: numeral_eq_Suc)
  done

subsection \<open>The float product at sampling rates that are not multiples of 10\<close>

lemma ulp_scale_eq:
  assumes "k < 1074" and "2 ^ 52 \<le> \<bar>x\<bar> * 2 ^ k" and "\<bar>x\<bar> * 2 ^ k < 2 ^ 53"
  shows "ulp_scale x = k"
proof -
  have below: "\<not> 2 ^ 52 \<le> \<bar>x\<bar> * 2 ^ j" if "j < k" for j
  proof -
    from that obtain d where k: "k = Suc (j + d)" by (metis less_iff_Suc_add)
    have "\<bar>x\<bar> * 2 ^ j * 2 \<le> \<bar>x\<bar> * 2 ^ j * 2 ^ Suc d"
      by (intro mult_left_mono) (simp_all add: self_le_power)
    also have "\<dots> = \<bar>x\<bar> * 2 ^ k"
      by (simp add: k power_add)
    finally have "\<bar>x\<bar> * 2 ^ j * 2 < 2 ^ 53"
      using assms(3) by simp
    then show ?thesis by simp
  qed
  have "List.find (\<lambda>k. 2 ^ 52 \<le> \<bar>x\<bar> * 2 ^ k) [0..<1074] = Some k"
    unfolding find_Some_iff
    using assms(1,2) below by (intro exI [of _ k]) simp
  then show ?thesis by (simp add: ulp_scale_def)
qed

lemma round_half_even_div:
  fixes m b :: int
  assumes "0 < b"
  shows "round_half_even (of_int m / of_int b) =
     (if 2 * (m mod b) < b then m div b
      else if b < 2 * (m mod b) then m div b + 1
      else if even (m div b) then m div b else m div b + 1)"
proof -
  have f: "\<lfloor>(of_int m :: rat) / of_int b\<rfloor> = m div b"
    by (simp add: floor_divide_of_int_eq)
  have e: "(of_int b :: rat) * of_int (m div b) + of_int (m mod b) = of_int m"
    by (simp flip: of_int_mult of_int_add)
  have "(of_int m :: rat) / of_int b = (of_int b * of_int (m div b) + of_int (m mod b)) / of_int b"
    by (simp only: e)
  also have "\<dots> = of_int (m div b) + of_int (m mod b) / of_int b"
    using assms by (simp add: add_divide_distrib)
  finally have r: "(of_int m :: rat) / of_int b - of_int (m div b) = of_int (m mod b) / of_int b"
    by (simp only: add_diff_cancel_left')
  have "((of_int (m mod b) :: rat) / of_int b < 1 / 2) = ((of_int (2 * (m mod b)) :: rat) < of_int b)"
    using assms by (simp add: pos_divide_less_eq mult.commute)
  then have lt: "((of_int (m mod b) :: rat) / of_int b < 1 / 2) = (2 * (m mod b) < b)"
    by (simp only: of_int_less_iff)
  have "(1 / 2 < (of_int (m mod b) :: rat) / of_int b) = ((of_int b :: rat) < of_int (2 * (m mod b)))"
    using assms by (simp add: pos_less_divide_eq mult.commute)
  then have gt: "(1 / 2 < (of_int (m mod b) :: rat) / of_int b) = (b < 2 * (m mod b))"
    by (simp only: of_int_less_iff)
  show ?thesis
    by (simp only: round_half_even_def Let_def f r lt gt)
qed

lemma binary64_frac:
  fixes a b :: int
  assumes "0 < b" and "k < 1074" and "2 ^ 52 * b \<le> \<bar>a\<bar> * 2 ^ k" and "\<bar>a\<bar> * 2 ^ k < 2 ^ 53 * b"
  shows "binary64 (of_int a / of_int b) =
     of_int (if 2 * ((a * 2 ^ k) mod b) < b then (a * 2 ^ k) div b
             else if b < 2 * ((a * 2 ^ k) mod b) then (a * 2 ^ k) div b + 1
             else if even ((a * 2 ^ k) div b) then (a * 2 ^ k) div b else (a * 2 ^ k) div b + 1)
       / 2 ^ k"
proof -
  let ?x = "(of_int a :: rat) / of_int b"
  have ab: "\<bar>?x\<bar> * 2 ^ k = of_int (\<bar>a\<bar> * 2 ^ k) / of_int b"
    using assms(1) by simp
  have lo: "2 ^ 52 \<le> \<bar>?x\<bar> * 2 ^ k"
  proof -
    have "(of_int (2 ^ 52 * b) :: rat) \<le> of_int (\<bar>a\<bar> * 2 ^ k)"
      using assms(3) by (simp only: of_int_le_iff)
    then show ?thesis
      using assms(1) by (simp add: ab pos_le_divide_eq)
  qed
  have hi: "\<bar>?x\<bar> * 2 ^ k < 2 ^ 53"
  proof -
    have "(of_int (\<bar>a\<bar> * 2 ^ k) :: rat) < of_int (2 ^ 53 * b)"
      using assms(4) by (simp only: of_int_less_iff)
    then show ?thesis
      using assms(1) by (simp add: ab pos_divide_less_eq)
  qed
  have k: "ulp_scale ?x = k"
    using assms(2) lo hi by (rule ulp_scale_eq)
  have small: "\<not> 2 ^ 53 \<le> \<bar>?x\<bar>"
  proof -
    have "\<bar>?x\<bar> * 1 \<le> \<bar>?x\<bar> * 2 ^ k"
      by (intro mult_left_mono) simp_all
    with hi show ?thesis by simp
  qed
  have m: "?x * 2 ^ k = of_int (a * 2 ^ k) / of_int b"
    by simp
  show ?thesis
    by (simp only: binary64_def small if_False k m round_half_even_div [OF assms(1)])
qed

lemma expected_length_7_3_10: "expected_length 7 3 10 = 5910974510923775 / 2 ^ 48"
proof -
  have s1: "truediv 7 10 = of_int 6305039478318694 / of_int (2 ^ 53)"
    unfolding truediv_def by (subst binary64_frac [where k = 53]) simp_all
  have "fmul (of_int 6305039478318694 / of_int (2 ^ 53)) 3
      = binary64 (of_int (6305039478318694 * 3) / of_int (2 ^ 53))"
    by (simp add: fmul_def)
  also have "\<dots> = of_int 4728779608739020 / of_int (2 ^ 51)"
    by (subst binary64_frac [where k = 51]) simp_all
  finally have s2: "fmul (truediv 7 10) 3 = of_int 4728779608739020 / of_int (2 ^ 51)"
    by (simp only: s1)
  have "fmul (of_int 4728779608739020 / of_int (2 ^ 51)) 10
      = binary64 (of_int (4728779608739020 * 10) / of_int (2 ^ 51))"
    by (simp add: fmul_def)
  also have "\<dots> = of_int 5910974510923775 / of_int (2 ^ 48)"
    by (subst binary64_frac [where k = 48]) simp_all
  finally have "fmul (fmul (truediv 7 10) 3) 10 = of_int 5910974510923775 / of_int (2 ^ 48)"
    by (simp only: s2)
  then show ?thesis
    by (simp add: expected_length_def)
qed

lemma expected_length_25_2_1: "expected_length 25 2 1 = 5"
proof -
  have s1: "truediv 25 10 = of_int 5 / of_int 2"
    unfolding truediv_def by (subst binary64_frac [where k = 51]) simp_all
  have "fmul (of_int 5 / of_int 2) 2 = binary64 (of_int 5)"
    by (simp add: fmul_def)
  then have s2: "fmul (truediv 25 10) 2 = of_int 5"
    by (simp only: s1 binary64_of_int)
  have "fmul (of_int 5) 1 = binary64 (of_int 5)"
    by (simp add: fmul_def)
  then have "fmul (fmul (truediv 25 10) 2) 1 = of_int 5"
    by (simp only: s2 binary64_of_int)
  then show ?thesis
    by (simp add: expected_length_def)
qed

text \<open>
  C5. Line 159 computes the expected length with \<^verbatim>\<open>samplerate / 10\<close>, a float under
  \<^verbatim>\<open>from __future__ import division\<close>, while the loop of line 163 runs over
  \<^verbatim>\<open>samplerate // 10\<close> rows. At a sampling rate that is not a multiple of 10 a block
  whose declared length matches the expected length is refused:
  \<^item> rate 7, 3 bytes, 10 channels: \<open>(7 / 10) * 3 * 10 = 21\<close>, but the rounded float product
    is \<open>21 - 2^-48\<close>, and a block of 21 bytes raises \<^verbatim>\<open>Bad data length\<close>;
  \<^item> rate 25, 2 bytes, 1 channel: the loop decodes \<open>25 // 10 = 2\<close> samples, 4 bytes, and the
    block of these 4 bytes raises \<^verbatim>\<open>Bad data length\<close>; a block of 5 bytes is taken, and
    its last byte is not decoded.
\<close>

theorem EVT_DATA_read_rate_not_multiple_of_10:
  "fst (EVT_DATA_read EVT_init \<lparr>content = replicate 21 0, closed = False\<rparr> 21 ''>''
         (7, 3, PNone, 10)) = Inl (EVTBadDataError ''Bad data length'')
   \<and> fst (EVT_DATA_read EVT_init \<lparr>content = [0, 1, 0, 2], closed = False\<rparr> 4 ''>''
         (25, 2, PNone, 1)) = Inl (EVTBadDataError ''Bad data length'')
   \<and> fst (EVT_DATA_read EVT_init \<lparr>content = [0, 1, 0, 2, 9], closed = False\<rparr> 5 ''>''
         (25, 2, PNone, 1)) = Inr [[256, 512]]"
proof -
  have a: "fst (EVT_DATA_read EVT_init \<lparr>content = replicate 21 0, closed = False\<rparr> 21 ''>''
         (7, 3, PNone, 10)) = Inl (EVTBadDataError ''Bad data length'')"
    by (subst EVT_DATA_read_mismatch) (simp_all add: expected_length_7_3_10)
  have b: "fst (EVT_DATA_read EVT_init \<lparr>content = [0, 1, 0, 2], closed = False\<rparr> 4 ''>''
         (25, 2, PNone, 1)) = Inl (EVTBadDataError ''Bad data length'')"
    by (subst EVT_DATA_read_mismatch) (simp_all add: expected_length_25_2_1)
  have m: "of_int 5 = expected_length 25 2 1"
    by (simp add: expected_length_25_2_1)
  have c: "fst (EVT_DATA_read EVT_init \<lparr>content = [0, 1, 0, 2, 9], closed = False\<rparr> 5 ''>''
         (25, 2, PNone, 1)) = Inr [[256, 512]]"
    by (subst EVT_DATA_read_ok [OF _ _ _ m])
      (simp_all add: val_at_def sample_value_def slice_def signed_def bytes_nat_def
        upt_0_2 upt_0_1 replicate_2)
  from a b c show ?thesis by simp
qed

subsection \<open>Claims on EVT\_HEADER.read\<close>

lemma EVT_HEADER_read_other_length:
  "len \<noteq> 2040 \<Longrightarrow> len \<noteq> 2736 \<Longrightarrow>
   EVT_HEADER_read instrument st fp len endian =
     (Inl TypeError, st\<lparr>EHeader_endian := PStr endian\<rparr>, snd (fp_read len fp))"
  by (simp add: EVT_HEADER_read_def Let_def split: prod.splits)

lemma EVT_HEADER_read_2736:
  "EVT_HEADER_read instrument st fp 2736 endian =
     (Inl (NotImplementedError ''16 Channel not implemented''),
      st\<lparr>EHeader_endian := PStr endian\<rparr>, snd (fp_read 2736 fp))"
  by (simp add: EVT_HEADER_read_def Let_def split: prod.splits)

text \<open>
  C3. With a length that is neither 2040 nor 2736, \<^verbatim>\<open>EVT_HEADER.read\<close> reaches
  \<^verbatim>\<open>raise EVTBadHeaderError("Bad Header length " + length)\<close>. The argument adds the
  integer \<^verbatim>\<open>length\<close> to a string, so that \<^verbatim>\<open>TypeError\<close> is raised and no
  \<^verbatim>\<open>EVTBadHeaderError\<close>: here for the length 100, for every transform of the instrument
  code, decoder object, stream and byte order. The length 2736 raises
  \<^verbatim>\<open>NotImplementedError\<close>.
\<close>

theorem EVT_HEADER_read_bad_length_TypeError:
  "fst (EVT_HEADER_read instrument st fp 100 endian) = Inl TypeError
   \<and> fst (EVT_HEADER_read instrument st fp 100 endian) \<noteq> Inl (EVTBadHeaderError msg)
   \<and> fst (EVT_HEADER_read instrument st fp 2736 endian)
       = Inl (NotImplementedError ''16 Channel not implemented'')"
  by (simp add: EVT_HEADER_read_other_length EVT_HEADER_read_2736)

subsection \<open>Claims on EVT\_FRAME\_HEADER.read\<close>

lemma unpack_frame:
  assumes "endian = ''>'' \<or> endian = ''<''"
  shows "unpack (endian @ FRAME_STRUCT) [b0, b1, b2, b3, b4, b5, b6, b7, b8, b9, b10, b11, b12, b13, b14, b15, b16, b17, b18, b19, b20, b21, b22, b23, b24, b25, b26, b27, b28, b29, b30, b31] =
     Inr [PInt (int (unat b0)), PInt (int (unat b1)),
          PInt (int (bytes_nat (order_of endian) [b2, b3])),
          PInt (int (bytes_nat (order_of endian) [b4, b5])),
          PInt (int (bytes_nat (order_of endian) [b6, b7, b8, b9])),
          PInt (int (bytes_nat (order_of endian) [b10, b11])),
          PInt (int (bytes_nat (order_of endian) [b12, b13])),
          PInt (int (unat b14)), PInt (int (unat b15)),
          PInt (int (bytes_nat (order_of endian) [b16, b17])),
          PInt (int (unat b18)),
          PBytes [b19, b20, b21, b22, b23, b24, b25, b26, b27, b28, b29, b30, b31]]"
  using assms
  by (auto simp: FRAME_STRUCT_def unpack_def fmt_body_def order_of_def is_digit_def digit_val_def
      code_size_def item_size_def unpack_one_def Let_def bytes_nat_def)

lemmas frame_defs = EVT_FRAME_HEADER_read_def analyse_frame32_def unpack_logged_def fp_read_def
  EVT_FRAME_HEADER_HEADER_def EVT_FRAME_HEADER_verify_def frame_param_def channels_def
  getattr_def getint_def apply_transform_def time_assemble_def value_at_def Let_def

lemma EVT_FRAME_HEADER_read_eval:
  assumes e: "endian = ''>'' \<or> endian = ''<''"
    and i: "instrument (uint b1) = Inr iv"
    and t: "uint b0 = 3 \<or> uint b0 = 5"
  shows "fst (EVT_FRAME_HEADER_read instrument st \<lparr>content = [b0, b1, b2, b3, b4, b5, b6, b7, b8, b9, b10, b11, b12, b13, b14, b15, b16, b17, b18, b19, b20, b21, b22, b23, b24, b25, b26, b27, b28, b29, b30, b31] @ rest, closed = c\<rparr> 32 endian) =
     Inr (int (bytes_nat (order_of endian) [b12, b13]) AND 4095,
          (if uint b14 div 64 + 1 \<noteq> 2 \<and> uint b14 div 64 + 1 \<noteq> 3
               \<and> uint b14 div 64 + 1 \<noteq> 4 then 3
           else uint b14 div 64 + 1),
          PTime (int (bytes_nat (order_of endian) [b6, b7, b8, b9]))
                (int (bytes_nat (order_of endian) [b16, b17])),
          int (length (filter (\<lambda>i. int (bytes_nat (order_of endian) [b10, b11]) AND 2 ^ i \<noteq> 0)
                         [0..<12])))"
  using t i by (auto simp add: frame_defs unpack_frame [OF e])

lemma EVT_FRAME_HEADER_read_Inr:
  assumes e: "endian = ''>'' \<or> endian = ''<''"
    and ok: "fst (EVT_FRAME_HEADER_read instrument st \<lparr>content = [b0, b1, b2, b3, b4, b5, b6, b7, b8, b9, b10, b11, b12, b13, b14, b15, b16, b17, b18, b19, b20, b21, b22, b23, b24, b25, b26, b27, b28, b29, b30, b31] @ rest, closed = c\<rparr> 32 endian) = Inr p"
  shows "(\<exists>iv. instrument (uint b1) = Inr iv) \<and> (uint b0 = 3 \<or> uint b0 = 5)"
proof (cases "instrument (uint b1)")
  case (Inl err)
  with ok show ?thesis
    by (simp add: frame_defs unpack_frame [OF e])
next
  case (Inr iv)
  with ok show ?thesis
    by (auto simp add: frame_defs unpack_frame [OF e] split: if_splits)
qed

lemma list32:
  assumes "length b = 32"
  shows "b = [b ! 0, b ! 1, b ! 2, b ! 3, b ! 4, b ! 5, b ! 6, b ! 7, b ! 8, b ! 9, b ! 10, b ! 11, b ! 12, b ! 13, b ! 14, b ! 15, b ! 16, b ! 17, b ! 18, b ! 19, b ! 20, b ! 21, b ! 22, b ! 23, b ! 24, b ! 25, b ! 26, b ! 27, b ! 28, b ! 29, b ! 30, b ! 31]"
proof -
  have "map ((!) b) [0..<32] = b"
    using map_nth [of b] assms by simp
  moreover have "[0..<32] = [0, 1, 2, 3, 4, 5, 6, 7, 8, 9, 10, 11, 12, 13, 14, 15, 16, 17, 18, 19, 20, 21, 22, 23, 24, 25, 26, 27, 28, 29, 30, 31]"
    by (simp add: upt_conv_Cons)
  ultimately show ?thesis by simp
qed

lemma list_update_14: "[c0, c1, c2, c3, c4, c5, c6, c7, c8, c9, c10, c11, c12, c13, c14, c15, c16, c17, c18, c19, c20, c21, c22, c23, c24, c25, c26, c27, c28, c29, c30, c31][14 := x] = [c0, c1, c2, c3, c4, c5, c6, c7, c8, c9, c10, c11, c12, c13, x, c15, c16, c17, c18, c19, c20, c21, c22, c23, c24, c25, c26, c27, c28, c29, c30, c31]"
  by (simp add: numeral_eq_Suc)

text \<open>
  C8. For a frame header of 32 bytes that \<^verbatim>\<open>EVT_FRAME_HEADER.read\<close> decodes, the sample
  size returned is \<open>(framestatus >> 6) + 1\<close> when that is 2, 3 or 4 and 3 otherwise, where
  \<^verbatim>\<open>framestatus\<close> is byte 14 of the header; and whatever byte stands there instead, the
  header is decoded all the same, with the same sampling rate, block time and number of
  channels: no value of \<^verbatim>\<open>framestatus\<close> makes the read raise.
\<close>

theorem frame_header_samplesize:
  assumes "endian = ''>'' \<or> endian = ''<''" and "length b = 32"
    and "fst (EVT_FRAME_HEADER_read instrument st \<lparr>content = b @ rest, closed = c\<rparr> 32 endian)
           = Inr (samplingrate', samplesize, blocktime, chan)"
  shows "samplesize =
           (if uint (b ! 14) div 64 + 1 \<noteq> 2 \<and> uint (b ! 14) div 64 + 1 \<noteq> 3
               \<and> uint (b ! 14) div 64 + 1 \<noteq> 4 then 3
            else uint (b ! 14) div 64 + 1)
     \<and> fst (EVT_FRAME_HEADER_read instrument st \<lparr>content = b[14 := x] @ rest, closed = c\<rparr> 32 endian)
           = Inr (samplingrate',
                  (if uint x div 64 + 1 \<noteq> 2 \<and> uint x div 64 + 1 \<noteq> 3 \<and> uint x div 64 + 1 \<noteq> 4
                   then 3 else uint x div 64 + 1),
                  blocktime, chan)"
proof -
  note b = list32 [OF assms(2)]
  have bx: "b[14 := x] = [b ! 0, b ! 1, b ! 2, b ! 3, b ! 4, b ! 5, b ! 6, b ! 7, b ! 8, b ! 9, b ! 10, b ! 11, b ! 12, b ! 13, x, b ! 15, b ! 16, b ! 17, b ! 18, b ! 19, b ! 20, b ! 21, b ! 22, b ! 23, b ! 24, b ! 25, b ! 26, b ! 27, b ! 28, b ! 29, b ! 30, b ! 31]"
    by (subst b) (rule list_update_14)
  have ok: "fst (EVT_FRAME_HEADER_read instrument st
              \<lparr>content = [b ! 0, b ! 1, b ! 2, b ! 3, b ! 4, b ! 5, b ! 6, b ! 7, b ! 8, b ! 9, b ! 10, b ! 11, b ! 12, b ! 13, b ! 14, b ! 15, b ! 16, b ! 17, b ! 18, b ! 19, b ! 20, b ! 21, b ! 22, b ! 23, b ! 24, b ! 25, b ! 26, b ! 27, b ! 28, b ! 29, b ! 30, b ! 31] @ rest, closed = c\<rparr> 32 endian)
           = Inr (samplingrate', samplesize, blocktime, chan)"
    using assms(3) b by simp
  from EVT_FRAME_HEADER_read_Inr [where instrument = instrument and ?b1.0 = "b ! 1"
      and ?b0.0 = "b ! 0", OF assms(1) ok]
  obtain iv where i: "instrument (uint (b ! 1)) = Inr iv" and t: "uint (b ! 0) = 3 \<or> uint (b ! 0) = 5"
    by blast
  have r: "Inr (samplingrate', samplesize, blocktime, chan) =
     (Inr (int (bytes_nat (order_of endian) [b ! 12, b ! 13]) AND 4095,
          (if uint (b ! 14) div 64 + 1 \<noteq> 2 \<and> uint (b ! 14) div 64 + 1 \<noteq> 3
               \<and> uint (b ! 14) div 64 + 1 \<noteq> 4 then 3
           else uint (b ! 14) div 64 + 1),
          PTime (int (bytes_nat (order_of endian) [b ! 6, b ! 7, b ! 8, b ! 9]))
                (int (bytes_nat (order_of endian) [b ! 16, b ! 17])),
          int (length (filter (\<lambda>i. int (bytes_nat (order_of endian) [b ! 10, b ! 11]) AND 2 ^ i \<noteq> 0)
                         [0..<12]))) :: error + param)"
    using EVT_FRAME_HEADER_read_eval [where instrument = instrument and endian = endian
        and iv = iv and st = st and rest = rest and c = c and ?b0.0 = "b ! 0" and ?b1.0 = "b ! 1" and ?b2.0 = "b ! 2" and ?b3.0 = "b ! 3" and ?b4.0 = "b ! 4" and ?b5.0 = "b ! 5" and ?b6.0 = "b ! 6" and ?b7.0 = "b ! 7" and ?b8.0 = "b ! 8" and ?b9.0 = "b ! 9" and ?b10.0 = "b ! 10" and ?b11.0 = "b ! 11" and ?b12.0 = "b ! 12" and ?b13.0 = "b ! 13" and ?b14.0 = "b ! 14" and ?b15.0 = "b ! 15" and ?b16.0 = "b ! 16" and ?b17.0 = "b ! 17" and ?b18.0 = "b ! 18" and ?b19.0 = "b ! 19" and ?b20.0 = "b ! 20" and ?b21.0 = "b ! 21" and ?b22.0 = "b ! 22" and ?b23.0 = "b ! 23" and ?b24.0 = "b ! 24" and ?b25.0 = "b ! 25" and ?b26.0 = "b ! 26" and ?b27.0 = "b ! 27" and ?b28.0 = "b ! 28" and ?b29.0 = "b ! 29" and ?b30.0 = "b ! 30" and ?b31.0 = "b ! 31", OF assms(1) i t] ok
    by (simp only:)
  have rx: "fst (EVT_FRAME_HEADER_read instrument st \<lparr>content = b[14 := x] @ rest, closed = c\<rparr> 32 endian) =
     Inr (int (bytes_nat (order_of endian) [b ! 12, b ! 13]) AND 4095,
          (if uint x div 64 + 1 \<noteq> 2 \<and> uint x div 64 + 1 \<noteq> 3 \<and> uint x div 64 + 1 \<noteq> 4 then 3
           else uint x div 64 + 1),
          PTime (int (bytes_nat (order_of endian) [b ! 6, b ! 7, b ! 8, b ! 9]))
                (int (bytes_nat (order_of endian) [b ! 16, b ! 17])),
          int (length (filter (\<lambda>i. int (bytes_nat (order_of endian) [b ! 10, b ! 11]) AND 2 ^ i \<noteq> 0)
                         [0..<12])))"
    unfolding bx
    by (rule EVT_FRAME_HEADER_read_eval [where instrument = instrument and endian = endian
        and iv = iv and ?b0.0 = "b ! 0" and ?b1.0 = "b ! 1", OF assms(1) i t])
  from r rx show ?thesis by simp
qed

lemma popcount_1: "length (filter (\<lambda>i. (1::int) AND 2 ^ i \<noteq> 0) [0..<12]) = 1"
  by (simp add: upt_conv_Cons)

theorem frame_header_samplesize_witness:
  "fst (EVT_FRAME_HEADER_read (\<lambda>code. Inr (PInt code)) EVT_init
          \<lparr>content = [3, 0, 0, 0, 0, 0, 0, 0, 0, 0, 0, 1, 0, 10, 192, 0, 0, 0, 0, 0, 0, 0, 0, 0, 0, 0, 0, 0, 0, 0, 0, 0] @ [], closed = False\<rparr> 32 ''>'')
     = Inr (10, 4, PTime 0 0, 1)
   \<and> fst (EVT_FRAME_HEADER_read (\<lambda>code. Inr (PInt code)) EVT_init
          \<lparr>content = [3, 0, 0, 0, 0, 0, 0, 0, 0, 0, 0, 1, 0, 10, 192, 0, 0, 0, 0, 0, 0, 0, 0, 0, 0, 0, 0, 0, 0, 0, 0, 0][14 := 0] @ [], closed = False\<rparr> 32 ''>'')
     = Inr (10, 3, PTime 0 0, 1)"
proof -
  have a: "fst (EVT_FRAME_HEADER_read (\<lambda>code. Inr (PInt code)) EVT_init
          \<lparr>content = [3, 0, 0, 0, 0, 0, 0, 0, 0, 0, 0, 1, 0, 10, 192, 0, 0, 0, 0, 0, 0, 0, 0, 0, 0, 0, 0, 0, 0, 0, 0, 0] @ [], closed = False\<rparr> 32 ''>'')
     = Inr (10, 4, PTime 0 0, 1)"
    by (subst EVT_FRAME_HEADER_read_eval [where iv = "PInt 0"])
      (simp_all add: bytes_nat_def order_of_def popcount_1)
  from frame_header_samplesize [OF _ _ a, of 0] a show ?thesis
    by simp
qed

end
